theory Spec2Isabelle
  imports Main "HOL-Library.AList"
begin

section \<open>The event bus of core/events.py\<close>

text \<open>
  \<^verbatim>\<open>EventBus\<close> talks to three things it does not own: the Redis client
  (\<^verbatim>\<open>self.client\<close>), the registered handlers, and the logger. The model keeps
  the bus's own control flow and records every call the bus makes, with the answer it got,
  in a history. What the outside answers is not fixed: it is given by an environment
  \<open>env\<close>, a record of functions of the history so far, so a theorem for all \<open>env\<close>
  holds whatever Redis, the handlers and the other coroutines do.
\<close>

subsection \<open>Values\<close>

text \<open>
  The exceptions below \<^verbatim>\<open>Exception\<close> that the calls of the bus raise: the ones
  every \<^verbatim>\<open>except Exception\<close> clause of the module catches.
  \<open>BusyGroup\<close> is Redis's answer "BUSYGROUP Consumer Group name already exists".
  \<^verbatim>\<open>asyncio.CancelledError\<close> is a \<^verbatim>\<open>BaseException\<close>, which those clauses let
  through; it is not among the values below, so every statement of this theory is about
  runs whose coroutine is not cancelled.
\<close>

datatype exn =
    BusyGroup
  | ConnectionError
  | ResponseError string
  | TypeError
  | JSONDecodeError
  | HandlerError string

text \<open>Python values that \<^verbatim>\<open>json\<close> reads and writes; \<open>JNull\<close> is \<^verbatim>\<open>None\<close>.\<close>

datatype json =
    JNull
  | JBool bool
  | JInt int
  | JStr string
  | JArr "json list"
  | JObj "(string \<times> json) list"

text \<open>
  A stream entry is a dict of string fields; Redis delivers it with its id. A read returns,
  per stream, the list of entries: \<^verbatim>\<open>[[stream, [(msg_id, msg_data), ...]], ...]\<close>.
\<close>

type_synonym fields = "(string \<times> string) list"
type_synonym message = "string \<times> fields"
type_synonym batch = "(string \<times> message list) list"

text \<open>A handler is a coroutine function of the process; the model names it by a number.\<close>

type_synonym handler = nat

datatype level = INFO | WARNING | ERROR

text \<open>The log lines of the module, one constructor per f-string, with its arguments.\<close>

datatype logmsg =
    Published string string
  | PublishFailed string exn
  | RequestTimeout string
  | RequestFailed string exn
  | ConsumerStarted nat
  | HandlerFailed string exn
  | ConsumerError exn

text \<open>
  One entry of the history per call the bus makes: the arguments the bus chose, and the
  answer. \<open>XRead s\<close> is \<^verbatim>\<open>xread({s: "0"}, count=1, block=1000)\<close>,
  \<open>XGroupCreate s g\<close> is \<^verbatim>\<open>xgroup_create(s, g, id="0", mkstream=True)\<close>,
  \<open>XReadGroup g c ss\<close> is \<^verbatim>\<open>xreadgroup(g, c, {s: ">" for s in ss}, count=10, block=1000)\<close>,
  \<open>Sleep ms\<close> is \<^verbatim>\<open>asyncio.sleep(ms / 1000)\<close>.
\<close>

datatype event =
    XAdd string fields "exn + string"
  | XRead string "exn + batch"
  | Delete string "exn option"
  | XGroupCreate string string "exn option"
  | XReadGroup string string "string list" "exn + batch"
  | XAck string string string "exn option"
  | Invoke handler json "exn option"
  | Log level logmsg
  | Sleep nat

subsection \<open>State\<close>

text \<open>The fields of \<^verbatim>\<open>EventBus\<close>; \<^verbatim>\<open>handlers\<close> is a dict, kept in insertion order.\<close>

record bus =
  stream_prefix :: string
  handlers :: "(string \<times> handler) list"
  running :: bool

text \<open>
  The world outside the bus: the history of calls, the clock of the event loop in
  milliseconds (\<^verbatim>\<open>asyncio.get_event_loop().time()\<close>), and how many uuids were drawn.
\<close>

record world =
  trace :: "event list"
  now :: int
  seed :: nat

text \<open>
  The environment. Each \<open>on_...\<close> function answers one kind of call, given the history
  before the call: \<open>Inl e\<close> or \<open>Some e\<close> is the exception the call raises.
  \<open>latency\<close> is the time an awaited call took, given the history that ends with it;
  \<open>rounds_below\<close> answers for float arithmetic where the clock in milliseconds cannot
  (see \<open>before_deadline\<close>);
  \<open>stop_requested\<close> tells whether another coroutine has called \<^verbatim>\<open>stop_consumer\<close>
  by the time the history is reached. \<open>json_dumps\<close> and \<open>json_loads\<close> are the
  standard library's codec, \<open>gen_uuid\<close> the stream of \<^verbatim>\<open>str(uuid.uuid4())\<close>
  values, \<open>isoformat\<close> the wall-clock timestamp when the loop clock has a given reading.
\<close>

record env =
  gen_uuid :: "nat \<Rightarrow> string"
  isoformat :: "int \<Rightarrow> string"
  json_dumps :: "json \<Rightarrow> exn + string"
  json_loads :: "string \<Rightarrow> exn + json"
  on_xadd :: "event list \<Rightarrow> string \<Rightarrow> fields \<Rightarrow> exn + string"
  on_xread :: "event list \<Rightarrow> string \<Rightarrow> exn + batch"
  on_delete :: "event list \<Rightarrow> string \<Rightarrow> exn option"
  on_xgroup_create :: "event list \<Rightarrow> string \<Rightarrow> string \<Rightarrow> exn option"
  on_xreadgroup :: "event list \<Rightarrow> string \<Rightarrow> string \<Rightarrow> string list \<Rightarrow> exn + batch"
  on_xack :: "event list \<Rightarrow> string \<Rightarrow> string \<Rightarrow> string \<Rightarrow> exn option"
  on_handler :: "event list \<Rightarrow> handler \<Rightarrow> json \<Rightarrow> exn option"
  latency :: "event list \<Rightarrow> nat"
  rounds_below :: "event list \<Rightarrow> bool"
  stop_requested :: "event list \<Rightarrow> bool"

subsection \<open>Calls on the outside\<close>

text \<open>A call that does not suspend (the logger) only extends the history.\<close>

definition emit :: "event \<Rightarrow> world \<Rightarrow> world" where
  "emit ev w = w\<lparr>trace := trace w @ [ev]\<rparr>"

text \<open>An awaited call extends the history and lets the clock advance by its latency.\<close>

definition awaited :: "env \<Rightarrow> event \<Rightarrow> world \<Rightarrow> world" where
  "awaited env ev w =
     w\<lparr>trace := trace w @ [ev], now := now w + int (latency env (trace w @ [ev]))\<rparr>"

definition logger :: "level \<Rightarrow> logmsg \<Rightarrow> world \<Rightarrow> world" where
  "logger lv msg w = emit (Log lv msg) w"

definition uuid4 :: "env \<Rightarrow> world \<Rightarrow> string \<times> world" where
  "uuid4 env w = (gen_uuid env (seed w), w\<lparr>seed := Suc (seed w)\<rparr>)"

definition xadd :: "env \<Rightarrow> string \<Rightarrow> fields \<Rightarrow> world \<Rightarrow> (exn + string) \<times> world" where
  "xadd env stream payload w =
     (let r = on_xadd env (trace w) stream payload
      in (r, awaited env (XAdd stream payload r) w))"

definition xread :: "env \<Rightarrow> string \<Rightarrow> world \<Rightarrow> (exn + batch) \<times> world" where
  "xread env stream w =
     (let r = on_xread env (trace w) stream
      in (r, awaited env (XRead stream r) w))"

definition delete_key :: "env \<Rightarrow> string \<Rightarrow> world \<Rightarrow> exn option \<times> world" where
  "delete_key env stream w =
     (let r = on_delete env (trace w) stream
      in (r, awaited env (Delete stream r) w))"

definition xgroup_create :: "env \<Rightarrow> string \<Rightarrow> string \<Rightarrow> world \<Rightarrow> exn option \<times> world" where
  "xgroup_create env stream grp w =
     (let r = on_xgroup_create env (trace w) stream grp
      in (r, awaited env (XGroupCreate stream grp r) w))"

definition xreadgroup ::
  "env \<Rightarrow> string \<Rightarrow> string \<Rightarrow> string list \<Rightarrow> world \<Rightarrow> (exn + batch) \<times> world" where
  "xreadgroup env grp consumer streams w =
     (let r = on_xreadgroup env (trace w) grp consumer streams
      in (r, awaited env (XReadGroup grp consumer streams r) w))"

definition xack :: "env \<Rightarrow> string \<Rightarrow> string \<Rightarrow> string \<Rightarrow> world \<Rightarrow> exn option \<times> world" where
  "xack env stream grp msg_id w =
     (let r = on_xack env (trace w) stream grp msg_id
      in (r, awaited env (XAck stream grp msg_id r) w))"

definition invoke :: "env \<Rightarrow> handler \<Rightarrow> json \<Rightarrow> world \<Rightarrow> exn option \<times> world" where
  "invoke env h payload w =
     (let r = on_handler env (trace w) h payload
      in (r, awaited env (Invoke h payload r) w))"

text \<open>\<^verbatim>\<open>asyncio.sleep\<close> suspends for the given time.\<close>

definition sleep :: "nat \<Rightarrow> world \<Rightarrow> world" where
  "sleep ms w = w\<lparr>trace := trace w @ [Sleep ms], now := now w + int ms\<rparr>"

subsection \<open>Publisher\<close>

text \<open>\<^verbatim>\<open>_make_stream\<close>: \<^verbatim>\<open>f"{self.stream_prefix}:{event_type}"\<close>.\<close>

definition make_stream :: "bus \<Rightarrow> string \<Rightarrow> string" where
  "make_stream b event_type = stream_prefix b @ '':'' @ event_type"

text \<open>
  \<^verbatim>\<open>correlation_id or str(uuid.uuid4())\<close>: \<^verbatim>\<open>None\<close> and the empty string are both
  false, and only then is a uuid drawn.
\<close>

definition choose_event_id :: "env \<Rightarrow> string option \<Rightarrow> world \<Rightarrow> string \<times> world" where
  "choose_event_id env correlation_id w =
     (case correlation_id of
        None \<Rightarrow> uuid4 env w
      | Some c \<Rightarrow> if c \<noteq> [] then (c, w) else uuid4 env w)"

text \<open>
  The dict literal \<^verbatim>\<open>payload = {"event_id": ..., "event_type": ..., "timestamp": ...,
  "data": json.dumps(data)}\<close> that \<^verbatim>\<open>publish\<close> appends.
\<close>

definition envelope :: "string \<Rightarrow> string \<Rightarrow> string \<Rightarrow> string \<Rightarrow> fields" where
  "envelope event_id event_type timestamp s =
     [(''event_id'', event_id),
      (''event_type'', event_type),
      (''timestamp'', timestamp),
      (''data'', s)]"

text \<open>
  The body of \<^verbatim>\<open>publish\<close>'s \<^verbatim>\<open>try\<close>. The dict literal is evaluated in the
  order it is written, so \<^verbatim>\<open>json.dumps\<close> comes last and an exception of it leaves
  before \<^verbatim>\<open>xadd\<close> is called.
\<close>

definition publish_try ::
  "bus \<Rightarrow> env \<Rightarrow> string \<Rightarrow> (string \<times> json) list \<Rightarrow> string option \<Rightarrow> world
     \<Rightarrow> (exn + string) \<times> world" where
  "publish_try b env event_type payload correlation_id w =
     (let (event_id, w1) = choose_event_id env correlation_id w;
          stream_name = make_stream b event_type
      in case json_dumps env (JObj payload) of
           Inl e \<Rightarrow> (Inl e, w1)
         | Inr s \<Rightarrow>
             (case xadd env stream_name
                     (envelope event_id event_type (isoformat env (now w1)) s) w1 of
                (Inl e, w2) \<Rightarrow> (Inl e, w2)
              | (Inr message_id, w2) \<Rightarrow>
                  (Inr event_id, logger INFO (Published event_type event_id) w2)))"

text \<open>\<^verbatim>\<open>publish\<close>: the \<^verbatim>\<open>except\<close> clause logs and raises the exception again.\<close>

definition publish ::
  "bus \<Rightarrow> env \<Rightarrow> string \<Rightarrow> (string \<times> json) list \<Rightarrow> string option \<Rightarrow> world
     \<Rightarrow> (exn + string) \<times> world" where
  "publish b env event_type payload correlation_id w =
     (case publish_try b env event_type payload correlation_id w of
        (Inl e, w1) \<Rightarrow> (Inl e, logger ERROR (PublishFailed event_type e) w1)
      | (Inr event_id, w1) \<Rightarrow> (Inr event_id, w1))"

subsection \<open>Request and reply\<close>

text \<open>\<^verbatim>\<open>msg_data.get("data", "{}")\<close>.\<close>

definition data_field :: "fields \<Rightarrow> string" where
  "data_field msg_data = (case map_of msg_data ''data'' of None \<Rightarrow> ''{}'' | Some s \<Rightarrow> s)"

text \<open>
  The two nested \<^verbatim>\<open>for\<close> loops of \<^verbatim>\<open>request\<close> leave at the first message they
  reach: the first entry of the first stream that has one.
\<close>

fun first_message :: "batch \<Rightarrow> message option" where
  "first_message [] = None"
| "first_message ((stream, []) # rest) = first_message rest"
| "first_message ((stream, m # ms) # rest) = Some m"

text \<open>
  The loop condition \<^verbatim>\<open>asyncio.get_event_loop().time() - start_time < timeout\<close>,
  with \<open>timeout\<close> in seconds and the clock in milliseconds. The code compares floats:
  when the elapsed time is the timeout exactly, the rounding of the float difference
  decides whether it comes out below the timeout, and the environment answers. A float's
  error is far below a millisecond, so everywhere else the integers decide.
\<close>

definition before_deadline :: "env \<Rightarrow> int \<Rightarrow> int \<Rightarrow> world \<Rightarrow> bool" where
  "before_deadline env timeout start_time w =
     (now w - start_time < 1000 * timeout
      \<or> (now w - start_time = 1000 * timeout \<and> rounds_below env (trace w)))"

text \<open>
  The \<^verbatim>\<open>while\<close> loop of \<^verbatim>\<open>request\<close>. \<open>Inl e\<close>: an exception left the
  loop; \<open>Inr (Some v)\<close>: the \<^verbatim>\<open>return\<close> inside the loop, with the decoded reply;
  \<open>Inr None\<close>: the condition became false. Each round that does not leave sleeps
  100 ms, so the loop ends.
\<close>

function poll_loop ::
  "env \<Rightarrow> string \<Rightarrow> int \<Rightarrow> int \<Rightarrow> world \<Rightarrow> (exn + json option) \<times> world" where
  "poll_loop env response_stream timeout start_time w =
     (if before_deadline env timeout start_time w then
        (case xread env response_stream w of
           (Inl e, w1) \<Rightarrow> (Inl e, w1)
         | (Inr messages, w1) \<Rightarrow>
             (case first_message messages of
                Some (msg_id, msg_data) \<Rightarrow>
                  (case delete_key env response_stream w1 of
                     (Some e, w2) \<Rightarrow> (Inl e, w2)
                   | (None, w2) \<Rightarrow>
                       (case json_loads env (data_field msg_data) of
                          Inl e \<Rightarrow> (Inl e, w2)
                        | Inr v \<Rightarrow> (Inr (Some v), w2)))
              | None \<Rightarrow>
                  poll_loop env response_stream timeout start_time (sleep 100 w1)))
      else (Inr None, w))"
  by pat_completeness auto
termination
  by (relation "measure (\<lambda>(env, rs, timeout, start_time, w).
                  nat (1000 * timeout - (now w - start_time) + 1))")
     (auto simp: before_deadline_def xread_def awaited_def sleep_def Let_def)

text \<open>\<^verbatim>\<open>f"{self.stream_prefix}:response:{correlation_id}"\<close>.\<close>

definition response_stream_name :: "bus \<Rightarrow> string \<Rightarrow> string" where
  "response_stream_name b correlation_id = stream_prefix b @ '':response:'' @ correlation_id"

text \<open>
  The body of \<^verbatim>\<open>request\<close>'s \<^verbatim>\<open>try\<close>: \<open>Inl e\<close> when an exception leaves it,
  \<open>Inr v\<close> when it returns \<open>v\<close> (\<open>JNull\<close> for \<^verbatim>\<open>None\<close>).
  \<^verbatim>\<open>{**data, "response_stream": response_stream}\<close> sets one key of a copy of the dict.
\<close>

definition request_try ::
  "bus \<Rightarrow> env \<Rightarrow> string \<Rightarrow> (string \<times> json) list \<Rightarrow> int \<Rightarrow> string \<Rightarrow> string \<Rightarrow> world
     \<Rightarrow> (exn + json) \<times> world" where
  "request_try b env event_type payload timeout correlation_id response_stream w =
     (case publish b env event_type
             (AList.update ''response_stream'' (JStr response_stream) payload)
             (Some correlation_id) w of
        (Inl e, w1) \<Rightarrow> (Inl e, w1)
      | (Inr event_id, w1) \<Rightarrow>
          (case poll_loop env response_stream timeout (now w1) w1 of
             (Inl e, w2) \<Rightarrow> (Inl e, w2)
           | (Inr (Some v), w2) \<Rightarrow> (Inr v, w2)
           | (Inr None, w2) \<Rightarrow> (Inr JNull, logger WARNING (RequestTimeout event_type) w2)))"

text \<open>
  The \<^verbatim>\<open>finally\<close> clause of \<^verbatim>\<open>request\<close>, entered with the value \<open>ret\<close> about
  to be returned: it deletes the response stream, and an exception of that delete replaces
  the return.
\<close>

definition request_finally :: "env \<Rightarrow> string \<Rightarrow> json \<Rightarrow> world \<Rightarrow> (exn + json) \<times> world" where
  "request_finally env response_stream ret w =
     (case delete_key env response_stream w of
        (Some e, w1) \<Rightarrow> (Inl e, w1)
      | (None, w1) \<Rightarrow> (Inr ret, w1))"

text \<open>
  \<^verbatim>\<open>request\<close>. The \<^verbatim>\<open>except\<close> clause logs and returns \<^verbatim>\<open>None\<close>; the
  \<^verbatim>\<open>finally\<close> clause runs on every path.
\<close>

definition request ::
  "bus \<Rightarrow> env \<Rightarrow> string \<Rightarrow> (string \<times> json) list \<Rightarrow> int \<Rightarrow> world \<Rightarrow> (exn + json) \<times> world" where
  "request b env event_type payload timeout w =
     (let (correlation_id, w1) = uuid4 env w;
          response_stream = response_stream_name b correlation_id
      in case request_try b env event_type payload timeout correlation_id response_stream w1 of
           (Inl e, w2) \<Rightarrow>
             request_finally env response_stream JNull
               (logger ERROR (RequestFailed event_type e) w2)
         | (Inr v, w2) \<Rightarrow> request_finally env response_stream v w2)"

subsection \<open>Handler registry\<close>

text \<open>
  \<^verbatim>\<open>subscribe(event_type)(handler)\<close>: \<^verbatim>\<open>self.handlers[event_type] = handler\<close>.
  Assigning to a key a dict already has replaces the value and keeps the key's place.
\<close>

definition subscribe :: "string \<Rightarrow> handler \<Rightarrow> bus \<Rightarrow> bus" where
  "subscribe event_type h b = b\<lparr>handlers := AList.update event_type h (handlers b)\<rparr>"

subsection \<open>Consumer\<close>

text \<open>
  \<^verbatim>\<open>str.split(sep)\<close> for a separator of one character: the segments between the
  separators, never an empty list.
\<close>

fun split_on :: "char \<Rightarrow> string \<Rightarrow> string list" where
  "split_on c [] = [[]]"
| "split_on c (x # xs) =
     (if x = c then [] # split_on c xs
      else (case split_on c xs of
              seg # segs \<Rightarrow> (x # seg) # segs
            | [] \<Rightarrow> [[x]]))"

text \<open>
  \<^verbatim>\<open>stream.split(":")[-1]\<close>: how the consumer recovers the event type from the name
  of a delivered stream. The client decodes responses, so the name is a \<^verbatim>\<open>str\<close>.
\<close>

definition stream_event_type :: "string \<Rightarrow> string" where
  "stream_event_type stream = last (split_on CHR '':'' stream)"

text \<open>
  The body of the inner \<^verbatim>\<open>for\<close> loop: decode, call the handler, acknowledge. One
  \<^verbatim>\<open>except Exception\<close> clause catches whatever the three steps raise and logs it.
\<close>

definition handle_message ::
  "env \<Rightarrow> string \<Rightarrow> string \<Rightarrow> string \<Rightarrow> handler \<Rightarrow> message \<Rightarrow> world \<Rightarrow> world" where
  "handle_message env stream grp event_type h m w =
     (case m of
        (msg_id, msg_data) \<Rightarrow>
          (case json_loads env (data_field msg_data) of
             Inl e \<Rightarrow> logger ERROR (HandlerFailed event_type e) w
           | Inr payload \<Rightarrow>
               (case invoke env h payload w of
                  (Some e, w1) \<Rightarrow> logger ERROR (HandlerFailed event_type e) w1
                | (None, w1) \<Rightarrow>
                    (case xack env stream grp msg_id w1 of
                       (Some e, w2) \<Rightarrow> logger ERROR (HandlerFailed event_type e) w2
                     | (None, w2) \<Rightarrow> w2))))"

text \<open>\<^verbatim>\<open>for msg_id, msg_data in msg_list\<close>.\<close>

fun handle_messages ::
  "env \<Rightarrow> string \<Rightarrow> string \<Rightarrow> string \<Rightarrow> handler \<Rightarrow> message list \<Rightarrow> world \<Rightarrow> world" where
  "handle_messages env stream grp event_type h [] w = w"
| "handle_messages env stream grp event_type h (m # msg_list) w =
     handle_messages env stream grp event_type h msg_list
       (handle_message env stream grp event_type h m w)"

text \<open>
  \<^verbatim>\<open>for stream, msg_list in messages\<close>: the handler is looked up under the recovered
  event type, and a stream without one is passed over (\<^verbatim>\<open>continue\<close>).
\<close>

fun dispatch :: "bus \<Rightarrow> env \<Rightarrow> string \<Rightarrow> batch \<Rightarrow> world \<Rightarrow> world" where
  "dispatch b env grp [] w = w"
| "dispatch b env grp ((stream, msg_list) # rest) w =
     (let event_type = stream_event_type stream
      in case map_of (handlers b) event_type of
           None \<Rightarrow> dispatch b env grp rest w
         | Some h \<Rightarrow>
             dispatch b env grp rest
               (handle_messages env stream grp event_type h msg_list w))"

text \<open>
  \<^verbatim>\<open>self.running\<close> as the loop reads it: the flag of the bus, unless another coroutine has
  called \<^verbatim>\<open>stop_consumer\<close> while the loop was suspended.
\<close>

definition still_running :: "env \<Rightarrow> bus \<Rightarrow> world \<Rightarrow> bool" where
  "still_running env b w = (running b \<and> \<not> stop_requested env (trace w))"

text \<open>
  The streams the loop reads: one per key of \<^verbatim>\<open>self.handlers\<close>, in the dict's order
  (the keys of a dict are distinct and \<open>make_stream\<close> is injective, so the dict
  comprehension has one entry per key).
\<close>

definition consumer_streams :: "bus \<Rightarrow> string list" where
  "consumer_streams b = map (make_stream b) (map fst (handlers b))"

text \<open>
  One round of \<^verbatim>\<open>while self.running\<close>: read under the group and dispatch; an exception
  of the read is logged and followed by a pause of a second, if the bus is still running.
\<close>

definition consumer_round :: "bus \<Rightarrow> env \<Rightarrow> string \<Rightarrow> string \<Rightarrow> world \<Rightarrow> world" where
  "consumer_round b env grp consumer w =
     (case xreadgroup env grp consumer (consumer_streams b) w of
        (Inl e, w1) \<Rightarrow>
          if still_running env b w1 then sleep 1000 (logger ERROR (ConsumerError e) w1)
          else w1
      | (Inr messages, w1) \<Rightarrow> dispatch b env grp messages w1)"

text \<open>
  The loop does not end by itself, so the model runs at most \<open>n\<close> rounds of it: the
  result is the world then, and whether the loop has left (\<open>True\<close>) or would go on.
\<close>

fun consumer_loop :: "nat \<Rightarrow> bus \<Rightarrow> env \<Rightarrow> string \<Rightarrow> string \<Rightarrow> world \<Rightarrow> bool \<times> world" where
  "consumer_loop 0 b env grp consumer w = (\<not> still_running env b w, w)"
| "consumer_loop (Suc n) b env grp consumer w =
     (if still_running env b w
      then consumer_loop n b env grp consumer (consumer_round b env grp consumer w)
      else (True, w))"

text \<open>
  The first \<^verbatim>\<open>for\<close> loop of \<^verbatim>\<open>start_consumer\<close>: one \<^verbatim>\<open>xgroup_create\<close> per
  registered event type, under \<^verbatim>\<open>except Exception: pass\<close>.
\<close>

fun ensure_groups :: "bus \<Rightarrow> env \<Rightarrow> string \<Rightarrow> string list \<Rightarrow> world \<Rightarrow> world" where
  "ensure_groups b env grp [] w = w"
| "ensure_groups b env grp (event_type # rest) w =
     (case xgroup_create env (make_stream b event_type) grp w of
        (Some e, w1) \<Rightarrow> ensure_groups b env grp rest w1
      | (None, w1) \<Rightarrow> ensure_groups b env grp rest w1)"

text \<open>The part of \<^verbatim>\<open>start_consumer\<close> before the loop.\<close>

definition consumer_setup :: "bus \<Rightarrow> env \<Rightarrow> string \<Rightarrow> world \<Rightarrow> bus \<times> world" where
  "consumer_setup b env grp w =
     (let b1 = b\<lparr>running := True\<rparr>;
          w1 = ensure_groups b1 env grp (map fst (handlers b1)) w
      in (b1, logger INFO (ConsumerStarted (length (handlers b1))) w1))"

text \<open>\<^verbatim>\<open>start_consumer\<close>, followed for at most \<open>n\<close> rounds of its loop.\<close>

definition start_consumer ::
  "nat \<Rightarrow> bus \<Rightarrow> env \<Rightarrow> string \<Rightarrow> string \<Rightarrow> world \<Rightarrow> bool \<times> world" where
  "start_consumer n b env grp consumer w =
     (let (b1, w1) = consumer_setup b env grp w
      in consumer_loop n b1 env grp consumer w1)"

definition stop_consumer :: "bus \<Rightarrow> bus" where
  "stop_consumer b = b\<lparr>running := False\<rparr>"

subsection \<open>A concrete bus and concrete environments\<close>

text \<open>\<^verbatim>\<open>EventBus()\<close>: the default prefix, no handler, not running.\<close>

definition event_bus :: bus where
  "event_bus = \<lparr>stream_prefix = ''agent:stream'', handlers = [], running = False\<rparr>"

definition world0 :: world where
  "world0 = \<lparr>trace = [], now = 0, seed = 0\<rparr>"

text \<open>
  The codec of the examples is \<^verbatim>\<open>json\<close> cut down to the values the examples
  use. It writes the empty payload and the payload of the example request as
  \<^verbatim>\<open>json.dumps\<close> does, and reads \<^verbatim>\<open>{}\<close>, \<^verbatim>\<open>null\<close> and \<^verbatim>\<open>42\<close> as
  \<^verbatim>\<open>json.loads\<close> does; it rejects everything else.
\<close>

definition request_data :: string where
  \<open>request_data = ''{"response_stream": "agent:stream:response:u"}''\<close>

definition toy_dumps :: "json \<Rightarrow> exn + string" where
  "toy_dumps v =
     (if v = JObj [] then Inr ''{}''
      else if v = JObj [(''response_stream'', JStr ''agent:stream:response:u'')]
      then Inr request_data
      else Inl TypeError)"

definition toy_loads :: "string \<Rightarrow> exn + json" where
  "toy_loads s =
     (if s = ''{}'' then Inr (JObj [])
      else if s = ''null'' then Inr JNull
      else if s = ''42'' then Inr (JInt 42)
      else Inl JSONDecodeError)"

text \<open>
  An environment where every call succeeds and nothing ever arrives: reads come back
  empty after 400 ms, nobody stops the consumer.
\<close>

definition quiet :: env where
  "quiet =
     \<lparr>gen_uuid = (\<lambda>n. ''u'' @ replicate n CHR ''x''),
      isoformat = (\<lambda>t. ''2024-01-01T00:00:00+00:00''),
      json_dumps = toy_dumps,
      json_loads = toy_loads,
      on_xadd = (\<lambda>tr stream payload. Inr ''1-0''),
      on_xread = (\<lambda>tr stream. Inr []),
      on_delete = (\<lambda>tr stream. None),
      on_xgroup_create = (\<lambda>tr stream grp. None),
      on_xreadgroup = (\<lambda>tr grp consumer streams. Inr []),
      on_xack = (\<lambda>tr stream grp msg_id. None),
      on_handler = (\<lambda>tr h payload. None),
      latency = (\<lambda>tr. 400),
      rounds_below = (\<lambda>tr. False),
      stop_requested = (\<lambda>tr. False)\<rparr>"

subsection \<open>Notions used in the statements\<close>

text \<open>The bus after a sequence of registrations, in order.\<close>

definition subscriptions :: "(string \<times> handler) list \<Rightarrow> bus \<Rightarrow> bus" where
  "subscriptions regs b = fold (\<lambda>(event_type, h). subscribe event_type h) regs b"

text \<open>The calls made between two worlds of one run: what the later history adds.\<close>

definition new_events :: "world \<Rightarrow> world \<Rightarrow> event list" where
  "new_events w w' = drop (length (trace w)) (trace w')"

text \<open>The part of a string after its last occurrence of \<open>c\<close> (all of it, if there is none).\<close>

definition after_last :: "char \<Rightarrow> string \<Rightarrow> string" where
  "after_last c s = rev (takeWhile (\<lambda>x. x \<noteq> c) (rev s))"

text \<open>A bus with two registrations, one of them for an event type with a colon in it.\<close>

definition two_types :: bus where
  "two_types = subscribe ''created'' 2 (subscribe ''order:created'' 1 event_bus)"

text \<open>As \<open>quiet\<close>, but every append to a stream fails.\<close>

definition xadd_down :: env where
  "xadd_down = quiet\<lparr>on_xadd := (\<lambda>tr stream payload. Inl ConnectionError)\<rparr>"

text \<open>Whether the calls \<open>evs\<close> include an \<^verbatim>\<open>xack\<close> of this message under this group.\<close>

definition ack_issued :: "string \<Rightarrow> string \<Rightarrow> string \<Rightarrow> event list \<Rightarrow> bool" where
  "ack_issued stream grp msg_id evs =
     list_ex (\<lambda>ev. case ev of
                      XAck s g i r \<Rightarrow> s = stream \<and> g = grp \<and> i = msg_id
                    | _ \<Rightarrow> False) evs"

text \<open>The \<^verbatim>\<open>xack\<close> calls among \<open>evs\<close> that name the stream.\<close>

definition acks_on :: "string \<Rightarrow> event list \<Rightarrow> event list" where
  "acks_on stream evs =
     filter (\<lambda>ev. case ev of XAck s g i r \<Rightarrow> s = stream | _ \<Rightarrow> False) evs"

text \<open>
  The handler completes on a message, in a world: the payload decodes and the handler,
  called in that world on the decoded payload, returns without raising.
\<close>

definition handler_completes :: "env \<Rightarrow> handler \<Rightarrow> message \<Rightarrow> world \<Rightarrow> bool" where
  "handler_completes env h m w =
     (case json_loads env (data_field (snd m)) of
        Inl e \<Rightarrow> False
      | Inr payload \<Rightarrow> on_handler env (trace w) h payload = None)"

text \<open>As \<open>quiet\<close>, but every group creation fails with a connection error.\<close>

definition group_down :: env where
  "group_down = quiet\<lparr>on_xgroup_create := (\<lambda>tr stream grp. Some ConnectionError)\<rparr>"

text \<open>As \<open>quiet\<close>, but handlers raise on the payload \<^verbatim>\<open>42\<close>.\<close>

definition handler_fails_on_42 :: env where
  "handler_fails_on_42 =
     quiet\<lparr>on_handler := (\<lambda>tr h payload. if payload = JInt 42 then Some (HandlerError ''boom'') else None)\<rparr>"

text \<open>As \<open>quiet\<close>, but every read of a response stream brings one reply, \<^verbatim>\<open>42\<close>.\<close>

definition replying :: env where
  "replying =
     quiet\<lparr>on_xread := (\<lambda>tr stream. Inr [(stream, [(''5-0'', [(''data'', ''42'')])])])\<rparr>"

text \<open>
  As \<open>replying\<close>, but the first delete of a run fails with a connection error; later
  deletes succeed.
\<close>

definition delete_fails_once :: env where
  "delete_fails_once =
     replying\<lparr>on_delete := (\<lambda>tr stream.
        if list_ex (\<lambda>ev. case ev of Delete s r \<Rightarrow> True | _ \<Rightarrow> False) tr then None
        else Some ConnectionError)\<rparr>"

text \<open>
  As \<open>quiet\<close>, but with the times of a slow store: an append takes 3000 ms, a read
  that finds nothing lasts its block window of 1000 ms, and the other calls take no time.
\<close>

definition slow_publish :: env where
  "slow_publish =
     quiet\<lparr>latency := (\<lambda>tr.
        if tr = [] then 0
        else (case last tr of
                XAdd s f r \<Rightarrow> 3000
              | XRead s r \<Rightarrow> 1000
              | _ \<Rightarrow> 0))\<rparr>"

text \<open>The \<^verbatim>\<open>xadd\<close> calls among \<open>evs\<close>.\<close>

definition appends :: "event list \<Rightarrow> event list" where
  "appends evs = filter (\<lambda>ev. case ev of XAdd s f r \<Rightarrow> True | _ \<Rightarrow> False) evs"

text \<open>
  The world of the example runs after the uuid of the request was drawn: the history
  \<open>tr\<close> at time \<open>t\<close>.
\<close>

definition world_at :: "event list \<Rightarrow> int \<Rightarrow> world" where
  "world_at tr t = \<lparr>trace = tr, now = t, seed = 1\<rparr>"

text \<open>The calls of the example request's publish, when the append succeeds.\<close>

definition ping_published :: "event list" where
  "ping_published =
     [XAdd ''agent:stream:ping''
        (envelope ''u'' ''ping'' ''2024-01-01T00:00:00+00:00'' request_data) (Inr ''1-0''),
      Log INFO (Published ''ping'' ''u'')]"

text \<open>The same calls when the append fails with a connection error.\<close>

definition ping_refused :: "event list" where
  "ping_refused =
     [XAdd ''agent:stream:ping''
        (envelope ''u'' ''ping'' ''2024-01-01T00:00:00+00:00'' request_data)
        (Inl ConnectionError),
      Log ERROR (PublishFailed ''ping'' ConnectionError)]"

text \<open>What a read of the example's response stream brings when there is a reply.\<close>

definition reply_42 :: batch where
  "reply_42 = [(''agent:stream:response:u'', [(''5-0'', [(''data'', ''42'')])])]"

section \<open>Properties\<close>

subsection \<open>Splitting stream names\<close>

lemma split_on_nonempty: "split_on c s \<noteq> []"
  by (induction s) (auto split: list.splits)

lemma split_on_no_sep: "c \<notin> set s \<Longrightarrow> split_on c s = [s]"
  by (induction s) auto

lemma split_on_append: "c \<notin> set t \<Longrightarrow> split_on c (p @ c # t) = split_on c p @ [t]"
proof (induction p)
  case Nil
  then show ?case by (simp add: split_on_no_sep)
next
  case (Cons x p)
  then show ?case
    by (cases "split_on c p") (auto simp: split_on_nonempty)
qed

lemma takeWhile_no_sep: "c \<notin> set s \<Longrightarrow> takeWhile (\<lambda>x. x \<noteq> c) s = s"
  by (induction s) auto

lemma after_last_append: "c \<notin> set t \<Longrightarrow> after_last c (p @ c # t) = t"
  by (simp add: after_last_def takeWhile_tail takeWhile_no_sep)

lemma after_last_no_sep: "c \<notin> set s \<Longrightarrow> after_last c s = s"
  by (simp add: after_last_def takeWhile_no_sep)

lemma last_split_on: "last (split_on c s) = after_last c s"
proof (cases "c \<in> set s")
  case True
  then obtain ys zs where "s = ys @ c # zs" and "c \<notin> set zs"
    by (meson split_list_last)
  then show ?thesis
    by (simp add: split_on_append after_last_append)
next
  case False
  then show ?thesis
    by (simp add: split_on_no_sep after_last_no_sep)
qed

lemma after_last_shorter: "c \<in> set s \<Longrightarrow> length (after_last c s) < length s"
proof -
  assume "c \<in> set s"
  then obtain ys zs where "s = ys @ c # zs" and "c \<notin> set zs"
    by (meson split_list_last)
  then show ?thesis by (simp add: after_last_append)
qed

lemma after_last_skip_prefix: "after_last c (p @ c # t) = after_last c t"
proof (cases "c \<in> set t")
  case True
  then obtain ys zs where t: "t = ys @ c # zs" and zs: "c \<notin> set zs"
    by (meson split_list_last)
  have "p @ c # t = (p @ c # ys) @ c # zs" using t by simp
  then show ?thesis using zs t after_last_append by metis
next
  case False
  then show ?thesis by (simp add: after_last_append after_last_no_sep)
qed

lemma stream_event_type_make_stream:
  "stream_event_type (make_stream b t) = after_last CHR '':'' t"
  by (simp add: stream_event_type_def make_stream_def last_split_on after_last_skip_prefix)

subsection \<open>The registry\<close>

lemma keys_subscribe:
  "distinct (map fst (handlers b)) \<Longrightarrow> distinct (map fst (handlers (subscribe t h b)))"
  by (simp add: subscribe_def distinct_update)

lemma distinct_subscriptions:
  "distinct (map fst (handlers b)) \<Longrightarrow> distinct (map fst (handlers (subscriptions regs b)))"
  unfolding subscriptions_def
  by (induction regs arbitrary: b) (auto simp: keys_subscribe)

lemma handlers_for_absent:
  "t \<notin> fst ` set al \<Longrightarrow> [h. (k, h) \<leftarrow> al, k = t] = []"
  by (induction al) auto

lemma handlers_for_update:
  "distinct (map fst al) \<Longrightarrow> [h. (k, h) \<leftarrow> AList.update t v al, k = t] = [v]"
  by (induction al) (auto simp: handlers_for_absent rev_image_eqI)

text \<open>
  C8. Registering \<open>h1\<close> and then \<open>h2\<close> for the same event type \<open>t\<close> leaves the
  registry of any bus as it was except that \<open>t\<close> maps to \<open>h2\<close>. In every bus built
  from \<^verbatim>\<open>EventBus()\<close> by registrations, an event type is registered at most once,
  and after the two registrations the handlers registered for \<open>t\<close> are \<open>h2\<close> alone.
\<close>

theorem subscribe_last_wins:
  "map_of (handlers (subscribe t h2 (subscribe t h1 b))) = (map_of (handlers b))(t \<mapsto> h2)
   \<and> distinct (map fst (handlers (subscriptions regs event_bus)))
   \<and> [h. (k, h) \<leftarrow> handlers (subscribe t h2 (subscribe t h1 (subscriptions regs event_bus))),
          k = t] = [h2]"
proof -
  have d: "distinct (map fst (handlers (subscriptions regs event_bus)))"
    by (rule distinct_subscriptions) (simp add: event_bus_def)
  have "map_of (handlers (subscribe t h2 (subscribe t h1 b))) = (map_of (handlers b))(t \<mapsto> h2)"
    by (simp add: subscribe_def update_conv')
  moreover have
    "[h. (k, h) \<leftarrow> handlers (subscribe t h2 (subscribe t h1 (subscriptions regs event_bus))),
         k = t] = [h2]"
    using d by (simp add: subscribe_def handlers_for_update)
  ultimately show ?thesis using d by blast
qed

subsection \<open>Publisher\<close>

text \<open>The definitions of the calls on the outside, for unfolding.\<close>

lemmas call_defs =
  emit_def awaited_def logger_def uuid4_def xadd_def xread_def delete_key_def
  xgroup_create_def xreadgroup_def xack_def invoke_def sleep_def Let_def

text \<open>
  C4 (amended). When the payload serialises and the append succeeds, \<^verbatim>\<open>publish\<close>
  makes exactly one append, of the envelope with the serialised payload, to the stream
  \<open>prefix:event_type\<close>, logs it, and returns the envelope's \<open>event_id\<close>. That id is
  the supplied \<open>correlation_id\<close> when it is a non-empty string, and the next value of
  \<^verbatim>\<open>uuid4\<close> when no id or the empty string is supplied.
\<close>

theorem publish_appends_envelope:
  assumes "event_id = (case correlation_id of
                         None \<Rightarrow> gen_uuid env (seed w)
                       | Some c \<Rightarrow> if c = [] then gen_uuid env (seed w) else c)"
      and "json_dumps env (JObj payload) = Inr s"
      and "on_xadd env (trace w) (stream_prefix b @ '':'' @ event_type)
             (envelope event_id event_type (isoformat env (now w)) s) = Inr message_id"
  shows "fst (publish b env event_type payload correlation_id w) = Inr event_id
       \<and> new_events w (snd (publish b env event_type payload correlation_id w)) =
           [XAdd (stream_prefix b @ '':'' @ event_type)
              (envelope event_id event_type (isoformat env (now w)) s) (Inr message_id),
            Log INFO (Published event_type event_id)]"
  using assms
  by (auto simp: publish_def publish_try_def choose_event_id_def make_stream_def
      new_events_def call_defs split: option.splits)

text \<open>The theorem at a supplied id and at no id, on the default bus.\<close>

theorem publish_appends_envelope_witness:
  "fst (publish event_bus quiet ''ping'' [] (Some ''c1'') world0) = Inr ''c1''
   \<and> new_events world0 (snd (publish event_bus quiet ''ping'' [] (Some ''c1'') world0)) =
       [XAdd ''agent:stream:ping''
          (envelope ''c1'' ''ping'' ''2024-01-01T00:00:00+00:00'' ''{}'') (Inr ''1-0''),
        Log INFO (Published ''ping'' ''c1'')]
   \<and> fst (publish event_bus quiet ''ping'' [] None world0) = Inr ''u''"
  using publish_appends_envelope[where env = quiet and w = world0 and b = event_bus
      and correlation_id = "Some ''c1''" and event_id = "''c1''" and payload = "[]"
      and s = "''{}''" and event_type = "''ping''" and message_id = "''1-0''"]
    publish_appends_envelope[where env = quiet and w = world0 and b = event_bus
      and correlation_id = "None" and event_id = "''u''" and payload = "[]"
      and s = "''{}''" and event_type = "''ping''" and message_id = "''1-0''"]
  by (simp add: quiet_def toy_dumps_def event_bus_def world0_def)

text \<open>
  C4 as stated fails for the empty string: it is a supplied \<open>correlation_id\<close>, and the
  envelope carries a generated id instead.
\<close>

theorem publish_empty_correlation_id:
  "fst (publish event_bus quiet ''ping'' [] (Some '''') world0) = Inr ''u''
   \<and> new_events world0 (snd (publish event_bus quiet ''ping'' [] (Some '''') world0)) =
       [XAdd ''agent:stream:ping''
          (envelope ''u'' ''ping'' ''2024-01-01T00:00:00+00:00'' ''{}'') (Inr ''1-0''),
        Log INFO (Published ''ping'' ''u'')]"
  by (simp add: publish_def publish_try_def choose_event_id_def make_stream_def
      new_events_def call_defs quiet_def toy_dumps_def event_bus_def world0_def)

text \<open>
  C9. When the append fails with \<open>e\<close>, \<^verbatim>\<open>publish\<close> raises \<open>e\<close> to its
  caller, and what it did is one \<^verbatim>\<open>xadd\<close> (the failed one) and one error log line:
  no second attempt.
\<close>

theorem publish_failure_not_retried:
  assumes "event_id = (case correlation_id of
                         None \<Rightarrow> gen_uuid env (seed w)
                       | Some c \<Rightarrow> if c = [] then gen_uuid env (seed w) else c)"
      and "json_dumps env (JObj payload) = Inr s"
      and "on_xadd env (trace w) (make_stream b event_type)
             (envelope event_id event_type (isoformat env (now w)) s) = Inl e"
  shows "fst (publish b env event_type payload correlation_id w) = Inl e
       \<and> new_events w (snd (publish b env event_type payload correlation_id w)) =
           [XAdd (make_stream b event_type)
              (envelope event_id event_type (isoformat env (now w)) s) (Inl e),
            Log ERROR (PublishFailed event_type e)]"
  using assms
  by (auto simp: publish_def publish_try_def choose_event_id_def
      new_events_def call_defs split: option.splits)

text \<open>The theorem where every append fails with a connection error.\<close>

theorem publish_failure_not_retried_witness:
  "fst (publish event_bus xadd_down ''ping'' [] None world0) = Inl ConnectionError
   \<and> new_events world0 (snd (publish event_bus xadd_down ''ping'' [] None world0)) =
       [XAdd ''agent:stream:ping''
          (envelope ''u'' ''ping'' ''2024-01-01T00:00:00+00:00'' ''{}'') (Inl ConnectionError),
        Log ERROR (PublishFailed ''ping'' ConnectionError)]"
  using publish_failure_not_retried[where env = xadd_down and w = world0 and b = event_bus
      and correlation_id = "None" and event_id = "''u''" and payload = "[]"
      and s = "''{}''" and event_type = "''ping''" and e = ConnectionError]
  by (simp add: xadd_down_def quiet_def toy_dumps_def event_bus_def world0_def make_stream_def)

text \<open>
  In general a call of \<^verbatim>\<open>publish\<close> makes at most one append, and exactly one unless
  serialising the payload raised before it.
\<close>

lemma publish_appends_at_most_once:
  "length (appends (new_events w (snd (publish b env et p c w)))) \<le> 1
   \<and> (length (appends (new_events w (snd (publish b env et p c w)))) = 1) =
       (\<exists>s. json_dumps env (JObj p) = Inr s)"
  by (auto simp: publish_def publish_try_def choose_event_id_def appends_def new_events_def
      call_defs split: option.splits sum.splits)

subsection \<open>Consumer\<close>

lemma new_events_append: "trace w' = trace w @ evs \<Longrightarrow> new_events w w' = evs"
  by (simp add: new_events_def)

lemma handle_messages_append:
  "handle_messages env stream grp et h (xs @ ys) w =
     handle_messages env stream grp et h ys (handle_messages env stream grp et h xs w)"
  by (induction xs arbitrary: w) auto

lemma handle_message_events:
  "\<exists>evs. trace (handle_message env stream grp et h m w) = trace w @ evs
     \<and> ack_issued stream grp (fst m) evs = handler_completes env h m w
     \<and> (handler_completes env h m w \<or> (\<exists>e evs'. evs = evs' @ [Log ERROR (HandlerFailed et e)]))
     \<and> (\<forall>s. s \<noteq> stream \<longrightarrow> acks_on s evs = [])"
  by (cases m)
     (auto simp: handle_message_def handler_completes_def ack_issued_def acks_on_def call_defs
           split: sum.splits option.splits)

text \<open>
  C3. Take any message of a delivered list. The messages before it are processed first,
  whatever happened to them; then this one; then the loop goes on with the rest, whatever
  happened to this one. The calls made for this message include its \<^verbatim>\<open>xack\<close> exactly
  when its payload decoded and its handler returned without raising; otherwise they end
  with the error log line and the message stays unacknowledged.
\<close>

theorem ack_iff_handler_completes:
  assumes "i < length msg_list"
  shows "let w_i = handle_messages env stream grp et h (take i msg_list) w;
             w_i' = handle_message env stream grp et h (msg_list ! i) w_i
         in handle_messages env stream grp et h msg_list w =
              handle_messages env stream grp et h (drop (Suc i) msg_list) w_i'
          \<and> trace w_i' = trace w_i @ new_events w_i w_i'
          \<and> ack_issued stream grp (fst (msg_list ! i)) (new_events w_i w_i') =
              handler_completes env h (msg_list ! i) w_i
          \<and> (handler_completes env h (msg_list ! i) w_i
               \<or> (\<exists>e evs. new_events w_i w_i' = evs @ [Log ERROR (HandlerFailed et e)]))"
proof -
  define w_i where "w_i = handle_messages env stream grp et h (take i msg_list) w"
  define w_i' where "w_i' = handle_message env stream grp et h (msg_list ! i) w_i"
  have "msg_list = take i msg_list @ msg_list ! i # drop (Suc i) msg_list"
    using assms by (simp add: id_take_nth_drop)
  then have "handle_messages env stream grp et h msg_list w =
      handle_messages env stream grp et h (take i msg_list @ msg_list ! i # drop (Suc i) msg_list) w"
    by simp
  then have step: "handle_messages env stream grp et h msg_list w =
      handle_messages env stream grp et h (drop (Suc i) msg_list) w_i'"
    unfolding handle_messages_append w_i'_def w_i_def by simp
  obtain evs where evs: "trace w_i' = trace w_i @ evs"
      "ack_issued stream grp (fst (msg_list ! i)) evs = handler_completes env h (msg_list ! i) w_i"
      "handler_completes env h (msg_list ! i) w_i \<or> (\<exists>e evs'. evs = evs' @ [Log ERROR (HandlerFailed et e)])"
    unfolding w_i'_def using handle_message_events[of env stream grp et h "msg_list ! i" w_i] by blast
  have "new_events w_i w_i' = evs" using evs(1) by (rule new_events_append)
  with step evs show ?thesis
    unfolding Let_def w_i_def[symmetric] w_i'_def[symmetric] by simp
qed

text \<open>
  The theorem on a list of two messages where the handler raises on the first and
  completes on the second: the first is not acknowledged, the second is.
\<close>

theorem ack_iff_handler_completes_witness:
  "(1::nat) < length [(''1-0'', [(''data'', ''42'')]), (''2-0'', [(''data'', ''{}'')])]
   \<and> \<not> handler_completes handler_fails_on_42 7 (''1-0'', [(''data'', ''42'')]) world0
   \<and> \<not> ack_issued ''agent:stream:t'' ''g'' ''1-0''
         (new_events world0
            (handle_message handler_fails_on_42 ''agent:stream:t'' ''g'' ''t'' 7
               (''1-0'', [(''data'', ''42'')]) world0))
   \<and> handler_completes handler_fails_on_42 7 (''2-0'', [(''data'', ''{}'')])
         (handle_messages handler_fails_on_42 ''agent:stream:t'' ''g'' ''t'' 7
            [(''1-0'', [(''data'', ''42'')])] world0)
   \<and> ack_issued ''agent:stream:t'' ''g'' ''2-0''
         (new_events
            (handle_messages handler_fails_on_42 ''agent:stream:t'' ''g'' ''t'' 7
               [(''1-0'', [(''data'', ''42'')])] world0)
            (handle_message handler_fails_on_42 ''agent:stream:t'' ''g'' ''t'' 7
               (''2-0'', [(''data'', ''{}'')])
               (handle_messages handler_fails_on_42 ''agent:stream:t'' ''g'' ''t'' 7
                  [(''1-0'', [(''data'', ''42'')])] world0)))"
proof -
  have c1: "\<not> handler_completes handler_fails_on_42 7 (''1-0'', [(''data'', ''42'')]) world0"
    by (simp add: handler_completes_def handler_fails_on_42_def quiet_def toy_loads_def
        data_field_def)
  have c2: "handler_completes handler_fails_on_42 7 (''2-0'', [(''data'', ''{}'')])
         (handle_messages handler_fails_on_42 ''agent:stream:t'' ''g'' ''t'' 7
            [(''1-0'', [(''data'', ''42'')])] world0)"
    by (simp add: handler_completes_def handler_fails_on_42_def quiet_def toy_loads_def
        data_field_def)
  show ?thesis
    using c1 c2
      ack_iff_handler_completes[where i = 0 and env = handler_fails_on_42
        and msg_list = "[(''1-0'', [(''data'', ''42'')]), (''2-0'', [(''data'', ''{}'')])]"
        and stream = "''agent:stream:t''" and grp = "''g''" and et = "''t''" and h = 7
        and w = world0]
      ack_iff_handler_completes[where i = 1 and env = handler_fails_on_42
        and msg_list = "[(''1-0'', [(''data'', ''42'')]), (''2-0'', [(''data'', ''{}'')])]"
        and stream = "''agent:stream:t''" and grp = "''g''" and et = "''t''" and h = 7
        and w = world0]
    by (simp add: Let_def)
qed

lemma handle_messages_events:
  "\<exists>evs. trace (handle_messages env stream grp et h msg_list w) = trace w @ evs
     \<and> (\<forall>s. s \<noteq> stream \<longrightarrow> acks_on s evs = [])"
proof (induction msg_list arbitrary: w)
  case Nil
  then show ?case by (simp add: acks_on_def)
next
  case (Cons m msg_list)
  obtain evs1 where 1: "trace (handle_message env stream grp et h m w) = trace w @ evs1"
      "\<forall>s. s \<noteq> stream \<longrightarrow> acks_on s evs1 = []"
    using handle_message_events[of env stream grp et h m w] by blast
  obtain evs2 where 2:
      "trace (handle_messages env stream grp et h msg_list (handle_message env stream grp et h m w)) =
         trace (handle_message env stream grp et h m w) @ evs2"
      "\<forall>s. s \<noteq> stream \<longrightarrow> acks_on s evs2 = []"
    using Cons.IH by blast
  have "trace (handle_messages env stream grp et h (m # msg_list) w) = trace w @ (evs1 @ evs2)"
    using 1 2 by simp
  moreover have "\<forall>s. s \<noteq> stream \<longrightarrow> acks_on s (evs1 @ evs2) = []"
    using 1 2 by (simp add: acks_on_def)
  ultimately show ?case by blast
qed

lemma dispatch_events:
  assumes "map_of (handlers b) (stream_event_type stream) = None"
  shows "\<exists>evs. trace (dispatch b env grp messages w) = trace w @ evs \<and> acks_on stream evs = []"
proof (induction messages arbitrary: w)
  case Nil
  then show ?case by (simp add: acks_on_def)
next
  case (Cons sm messages)
  obtain s msg_list where sm: "sm = (s, msg_list)" by (cases sm)
  show ?case
  proof (cases "map_of (handlers b) (stream_event_type s)")
    case None
    then show ?thesis using Cons.IH[of w] sm by simp
  next
    case (Some h)
    then have ne: "stream \<noteq> s" using assms by auto
    let ?w1 = "handle_messages env s grp (stream_event_type s) h msg_list w"
    obtain evs1 where 1: "trace ?w1 = trace w @ evs1" "acks_on stream evs1 = []"
      using handle_messages_events[of env s grp "stream_event_type s" h msg_list w] ne by blast
    obtain evs2 where 2: "trace (dispatch b env grp messages ?w1) = trace ?w1 @ evs2"
        "acks_on stream evs2 = []"
      using Cons.IH[of ?w1] by blast
    have "trace (dispatch b env grp (sm # messages) w) = trace w @ (evs1 @ evs2)"
      using 1 2 sm Some by simp
    moreover have "acks_on stream (evs1 @ evs2) = []"
      using 1 2 by (simp add: acks_on_def)
    ultimately show ?thesis by blast
  qed
qed

text \<open>
  C6. When no handler is registered under the event type recovered from a stream's name,
  the consumer passes over the messages delivered for that stream without a single call
  (no handler, no \<^verbatim>\<open>xack\<close>, no log line) and goes on with the next stream; and in the
  dispatch of any delivered batch, no \<^verbatim>\<open>xack\<close> is made on that stream.
\<close>

theorem unregistered_type_not_acknowledged:
  assumes "map_of (handlers b) (stream_event_type stream) = None"
  shows "dispatch b env grp ((stream, msg_list) # rest) w = dispatch b env grp rest w
       \<and> acks_on stream (new_events w (dispatch b env grp messages w)) = []"
proof -
  obtain evs where "trace (dispatch b env grp messages w) = trace w @ evs" "acks_on stream evs = []"
    using dispatch_events[OF assms] by blast
  then have "acks_on stream (new_events w (dispatch b env grp messages w)) = []"
    by (simp add: new_events_append)
  then show ?thesis using assms by simp
qed

text \<open>
  The theorem for a stream whose recovered type \<open>shipped\<close> has no handler, delivered
  together with a stream that has one.
\<close>

theorem unregistered_type_not_acknowledged_witness:
  "map_of (handlers two_types) (stream_event_type ''agent:stream:order:shipped'') = None
   \<and> dispatch two_types quiet ''g''
       [(''agent:stream:order:shipped'', [(''1-0'', [(''data'', ''42'')])]),
        (''agent:stream:created'', [(''2-0'', [(''data'', ''{}'')])])] world0 =
     dispatch two_types quiet ''g''
       [(''agent:stream:created'', [(''2-0'', [(''data'', ''{}'')])])] world0
   \<and> new_events world0 (dispatch two_types quiet ''g''
       [(''agent:stream:order:shipped'', [(''1-0'', [(''data'', ''42'')])]),
        (''agent:stream:created'', [(''2-0'', [(''data'', ''{}'')])])] world0) =
     [Invoke 2 (JObj []) None, XAck ''agent:stream:created'' ''g'' ''2-0'' None]"
proof -
  have h: "map_of (handlers two_types) (stream_event_type ''agent:stream:order:shipped'') = None"
    by (simp add: two_types_def subscribe_def event_bus_def stream_event_type_def)
  have d: "new_events world0 (dispatch two_types quiet ''g''
       [(''agent:stream:created'', [(''2-0'', [(''data'', ''{}'')])])] world0) =
     [Invoke 2 (JObj []) None, XAck ''agent:stream:created'' ''g'' ''2-0'' None]"
    by (simp add: two_types_def subscribe_def event_bus_def stream_event_type_def
        handle_message_def quiet_def toy_loads_def data_field_def world0_def call_defs
        new_events_def)
  show ?thesis
    using h d unregistered_type_not_acknowledged[OF h, of quiet "''g''"
        "[(''1-0'', [(''data'', ''42'')])]"
        "[(''agent:stream:created'', [(''2-0'', [(''data'', ''{}'')])])]" world0]
    by simp
qed


lemma dispatch_trace: "\<exists>evs. trace (dispatch b env grp messages w) = trace w @ evs"
proof (induction messages arbitrary: w)
  case Nil
  then show ?case by simp
next
  case (Cons sm messages)
  obtain s msg_list where sm: "sm = (s, msg_list)" by (cases sm)
  show ?case
  proof (cases "map_of (handlers b) (stream_event_type s)")
    case None
    then show ?thesis using Cons.IH[of w] sm by simp
  next
    case (Some h)
    let ?w1 = "handle_messages env s grp (stream_event_type s) h msg_list w"
    obtain evs1 where 1: "trace ?w1 = trace w @ evs1"
      using handle_messages_events[of env s grp "stream_event_type s" h msg_list w] by blast
    obtain evs2 where 2: "trace (dispatch b env grp messages ?w1) = trace ?w1 @ evs2"
      using Cons.IH[of ?w1] by blast
    have "trace (dispatch b env grp (sm # messages) w) = trace w @ (evs1 @ evs2)"
      using 1 2 sm Some by simp
    then show ?thesis by blast
  qed
qed

lemma ensure_groups_events:
  "\<exists>rs. length rs = length ets
     \<and> trace (ensure_groups b env grp ets w) =
         trace w @ map2 (\<lambda>t r. XGroupCreate (make_stream b t) grp r) ets rs"
proof (induction ets arbitrary: w)
  case Nil
  then show ?case by simp
next
  case (Cons t ets)
  let ?r = "on_xgroup_create env (trace w) (make_stream b t) grp"
  let ?w1 = "snd (xgroup_create env (make_stream b t) grp w)"
  have step: "ensure_groups b env grp (t # ets) w = ensure_groups b env grp ets ?w1"
    by (simp add: xgroup_create_def Let_def split: option.splits)
  have tr1: "trace ?w1 = trace w @ [XGroupCreate (make_stream b t) grp ?r]"
    by (simp add: call_defs)
  obtain rs where rs: "length rs = length ets"
      "trace (ensure_groups b env grp ets ?w1) =
         trace ?w1 @ map2 (\<lambda>t r. XGroupCreate (make_stream b t) grp r) ets rs"
    using Cons.IH[of ?w1] by blast
  have "length (?r # rs) = length (t # ets)" using rs by simp
  moreover have "trace (ensure_groups b env grp (t # ets) w) =
      trace w @ map2 (\<lambda>t r. XGroupCreate (make_stream b t) grp r) (t # ets) (?r # rs)"
    using step rs tr1 by simp
  ultimately show ?case by blast
qed

text \<open>
  C2 (amended). On consumer start the bus makes one \<^verbatim>\<open>xgroup_create\<close> per registered
  event type, in registration order, and nothing else but the "started" log line: whatever
  each creation answers (success, "group already exists", or any other error) is ignored
  without a log line and without raising. No event type is dropped: the registry is
  unchanged, and the read of the first round names the stream of every registered type.
\<close>

lemma consumer_setup_events:
  "\<exists>rs. length rs = length (handlers b)
     \<and> trace (snd (consumer_setup b env grp w)) =
         trace w @ map2 (\<lambda>t r. XGroupCreate (make_stream b t) grp r) (map fst (handlers b)) rs
                 @ [Log INFO (ConsumerStarted (length (handlers b)))]"
proof -
  let ?b1 = "b\<lparr>running := True\<rparr>"
  have ms: "\<And>t. make_stream ?b1 t = make_stream b t"
    by (simp add: make_stream_def)
  obtain rs where rs: "length rs = length (map fst (handlers b))"
      "trace (ensure_groups ?b1 env grp (map fst (handlers b)) w) =
         trace w @ map2 (\<lambda>t r. XGroupCreate (make_stream ?b1 t) grp r) (map fst (handlers b)) rs"
    using ensure_groups_events[of "map fst (handlers b)" ?b1 env grp w] by blast
  have "trace (snd (consumer_setup b env grp w)) =
      trace (ensure_groups ?b1 env grp (map fst (handlers b)) w)
      @ [Log INFO (ConsumerStarted (length (handlers b)))]"
    by (simp add: consumer_setup_def Let_def logger_def emit_def)
  then have "trace (snd (consumer_setup b env grp w)) =
         trace w @ map2 (\<lambda>t r. XGroupCreate (make_stream b t) grp r) (map fst (handlers b)) rs
                 @ [Log INFO (ConsumerStarted (length (handlers b)))]"
    unfolding rs(2) ms by simp
  then show ?thesis using rs(1) by auto
qed

lemma consumer_round_events:
  "\<exists>r evs. trace (consumer_round b env grp consumer w) =
      trace w @ XReadGroup grp consumer (consumer_streams b) r # evs"
proof (cases "on_xreadgroup env (trace w) grp consumer (consumer_streams b)")
  case (Inl e)
  then show ?thesis
    by (simp add: consumer_round_def call_defs)
next
  case (Inr messages)
  let ?w2 = "snd (xreadgroup env grp consumer (consumer_streams b) w)"
  have 1: "trace ?w2 = trace w @ [XReadGroup grp consumer (consumer_streams b) (Inr messages)]"
    using Inr by (simp add: xreadgroup_def awaited_def Let_def)
  obtain evs where 2: "trace (dispatch b env grp messages ?w2) = trace ?w2 @ evs"
    using dispatch_trace[of b env grp messages ?w2] by blast
  have 3: "consumer_round b env grp consumer w = dispatch b env grp messages ?w2"
    using Inr by (simp add: consumer_round_def xreadgroup_def Let_def)
  show ?thesis unfolding 3 2 1 by simp
qed

theorem consumer_start_ignores_group_errors:
  "\<exists>rs. length rs = length (handlers b)
     \<and> (let (b1, w1) = consumer_setup b env grp w
        in handlers b1 = handlers b \<and> running b1
         \<and> new_events w w1 =
             map2 (\<lambda>t r. XGroupCreate (make_stream b t) grp r) (map fst (handlers b)) rs
             @ [Log INFO (ConsumerStarted (length (handlers b)))]
         \<and> (\<exists>r evs. new_events w1 (consumer_round b1 env grp consumer w1) =
               XReadGroup grp consumer (map (make_stream b) (map fst (handlers b))) r # evs))"
proof -
  let ?b1 = "b\<lparr>running := True\<rparr>"
  obtain w1 where stp: "consumer_setup b env grp w = (?b1, w1)"
    by (simp add: consumer_setup_def Let_def)
  then have w1: "w1 = snd (consumer_setup b env grp w)"
    by simp
  obtain rs where rs: "length rs = length (handlers b)"
      "trace w1 =
         trace w @ map2 (\<lambda>t r. XGroupCreate (make_stream b t) grp r) (map fst (handlers b)) rs
                 @ [Log INFO (ConsumerStarted (length (handlers b)))]"
    unfolding w1 using consumer_setup_events[of b env grp w] by blast
  have ev1: "new_events w w1 =
      map2 (\<lambda>t r. XGroupCreate (make_stream b t) grp r) (map fst (handlers b)) rs
      @ [Log INFO (ConsumerStarted (length (handlers b)))]"
    using rs(2) by (rule new_events_append)
  have cs: "consumer_streams ?b1 = map (make_stream b) (map fst (handlers b))"
    by (simp add: consumer_streams_def make_stream_def)
  obtain r evs where "trace (consumer_round ?b1 env grp consumer w1) =
      trace w1 @ XReadGroup grp consumer (consumer_streams ?b1) r # evs"
    using consumer_round_events[of ?b1 env grp consumer w1] by blast
  then have "new_events w1 (consumer_round ?b1 env grp consumer w1) =
      XReadGroup grp consumer (map (make_stream b) (map fst (handlers b))) r # evs"
    unfolding cs by (rule new_events_append)
  then have ev2: "\<exists>r evs. new_events w1 (consumer_round ?b1 env grp consumer w1) =
      XReadGroup grp consumer (map (make_stream b) (map fst (handlers b))) r # evs"
    by blast
  have "let (b1, w1) = consumer_setup b env grp w
        in handlers b1 = handlers b \<and> running b1
         \<and> new_events w w1 =
             map2 (\<lambda>t r. XGroupCreate (make_stream b t) grp r) (map fst (handlers b)) rs
             @ [Log INFO (ConsumerStarted (length (handlers b)))]
         \<and> (\<exists>r evs. new_events w1 (consumer_round b1 env grp consumer w1) =
               XReadGroup grp consumer (map (make_stream b) (map fst (handlers b))) r # evs)"
    unfolding stp Let_def prod.case using ev1 ev2 by simp
  then show ?thesis using rs(1) by blast
qed

text \<open>
  C2 as stated fails: with one registered type whose group creation fails with a connection
  error (not "already exists"), \<^verbatim>\<open>start_consumer\<close> logs no error, raises nothing,
  and the first round reads that type's stream.
\<close>

theorem consumer_start_group_error_counterexample:
  "start_consumer 1 (subscribe ''t'' 7 event_bus) group_down ''g'' ''c'' world0 =
     (False,
      \<lparr>trace = [XGroupCreate ''agent:stream:t'' ''g'' (Some ConnectionError),
                Log INFO (ConsumerStarted 1),
                XReadGroup ''g'' ''c'' [''agent:stream:t''] (Inr [])],
       now = 800, seed = 0\<rparr>)"
  by (simp add: start_consumer_def consumer_setup_def consumer_round_def consumer_streams_def
      still_running_def subscribe_def event_bus_def group_down_def quiet_def world0_def
      make_stream_def call_defs)

text \<open>
  What the consumer recovers from the stream of event type \<open>t\<close> is the part of \<open>t\<close>
  after its last colon: \<open>t\<close> itself when \<open>t\<close> has no colon, so that naming the stream
  and recovering the type round-trips and the handler registered for \<open>t\<close> is looked
  up; and a different name otherwise, so that the lookup is made under a name that is not
  the message's event type.
\<close>

theorem event_type_recovered_from_stream_name:
  "stream_event_type (make_stream b t) = after_last CHR '':'' t
   \<and> (CHR '':'' \<notin> set t \<longrightarrow> stream_event_type (make_stream b t) = t)
   \<and> (CHR '':'' \<in> set t \<longrightarrow> stream_event_type (make_stream b t) \<noteq> t)
   \<and> dispatch b env grp [(make_stream b t, msg_list)] w =
       (case map_of (handlers b) (after_last CHR '':'' t) of
          None \<Rightarrow> w
        | Some h \<Rightarrow>
            handle_messages env (make_stream b t) grp (after_last CHR '':'' t) h msg_list w)"
proof -
  have "CHR '':'' \<in> set t \<longrightarrow> after_last CHR '':'' t \<noteq> t"
    using after_last_shorter[of "CHR '':''" t] by auto
  then show ?thesis
    by (auto simp: stream_event_type_make_stream after_last_no_sep split: option.splits)
qed

text \<open>The theorem at a type without a colon and at one with a colon.\<close>

theorem event_type_recovered_from_stream_name_witness:
  "CHR '':'' \<notin> set ''ping''
   \<and> stream_event_type (make_stream event_bus ''ping'') = ''ping''
   \<and> CHR '':'' \<in> set ''order:created''
   \<and> stream_event_type (make_stream two_types ''order:created'') = ''created''
   \<and> stream_event_type (make_stream two_types ''order:created'') \<noteq> ''order:created''
   \<and> dispatch two_types quiet ''g''
        [(make_stream two_types ''order:created'', [(''1-0'', [(''data'', ''42'')])])] world0 =
      handle_messages quiet (make_stream two_types ''order:created'') ''g'' ''created'' 2
        [(''1-0'', [(''data'', ''42'')])] world0"
proof -
  have a: "after_last CHR '':'' ''order:created'' = ''created''"
    by (simp add: after_last_def)
  have h: "map_of (handlers two_types) ''created'' = Some 2"
    by (simp add: two_types_def subscribe_def event_bus_def)
  have p: "CHR '':'' \<notin> set ''ping''" by simp
  have q: "CHR '':'' \<in> set ''order:created''" by simp
  note t1 = event_type_recovered_from_stream_name[of event_bus "''ping''" quiet "''g''" "[]" world0]
  note t2 = event_type_recovered_from_stream_name[of two_types "''order:created''" quiet "''g''"
        "[(''1-0'', [(''data'', ''42'')])]" world0]
  have 1: "stream_event_type (make_stream event_bus ''ping'') = ''ping''"
    using t1 p by blast
  have 2: "stream_event_type (make_stream two_types ''order:created'') = ''created''"
    using t2 a by metis
  have 3: "stream_event_type (make_stream two_types ''order:created'') \<noteq> ''order:created''"
    using t2 q by blast
  have "dispatch two_types quiet ''g''
        [(make_stream two_types ''order:created'', [(''1-0'', [(''data'', ''42'')])])] world0 =
       (case map_of (handlers two_types) (after_last CHR '':'' ''order:created'') of
          None \<Rightarrow> world0
        | Some h \<Rightarrow>
            handle_messages quiet (make_stream two_types ''order:created'') ''g''
              (after_last CHR '':'' ''order:created'') h [(''1-0'', [(''data'', ''42'')])] world0)"
    using t2 by blast
  then have 4: "dispatch two_types quiet ''g''
        [(make_stream two_types ''order:created'', [(''1-0'', [(''data'', ''42'')])])] world0 =
      handle_messages quiet (make_stream two_types ''order:created'') ''g'' ''created'' 2
        [(''1-0'', [(''data'', ''42'')])] world0"
    unfolding a h by simp
  show ?thesis using p q 1 2 3 4 by blast
qed

text \<open>
  C10. The claim says that a message of an event type with a colon in it is never
  dispatched and stays pending. The code at such a message, with handlers registered for
  \<open>order:created\<close> (handler 1) and for \<open>created\<close> (handler 2): the message of the
  stream of \<open>order:created\<close> is handed to handler 2, the handler of another event
  type, and acknowledged.
\<close>

theorem colon_type_handled_by_other_handler:
  "CHR '':'' \<in> set ''order:created''
   \<and> map_of (handlers two_types) ''order:created'' = Some 1
   \<and> new_events world0
       (dispatch two_types quiet ''g''
          [(make_stream two_types ''order:created'', [(''1-0'', [(''data'', ''42'')])])] world0) =
     [Invoke 2 (JInt 42) None, XAck ''agent:stream:order:created'' ''g'' ''1-0'' None]"
  by (simp add: two_types_def subscribe_def event_bus_def stream_event_type_def make_stream_def
      handle_message_def quiet_def toy_loads_def data_field_def world0_def call_defs
      new_events_def)

subsection \<open>Request and reply\<close>

text \<open>The loop's equation is unfolded by hand, one round at a time.\<close>

declare poll_loop.simps [simp del]

lemma poll_loop_lower:
  "poll_loop env rs T st w = (Inr None, w') \<Longrightarrow> 1000 * T \<le> now w' - st"
proof (induction env rs T st w rule: poll_loop.induct)
  case (1 env rs T st w)
  show ?case
  proof (cases "before_deadline env T st w")
    case False
    then have "w' = w" using "1.prems" by (simp add: poll_loop.simps)
    moreover have "1000 * T \<le> now w - st"
      using False by (auto simp: before_deadline_def)
    ultimately show ?thesis by simp
  next
    case True
    obtain r w1 where x: "xread env rs w = (r, w1)" by (cases "xread env rs w")
    show ?thesis
    proof (cases r)
      case (Inl e)
      then show ?thesis using "1.prems" True x by (simp add: poll_loop.simps)
    next
      case (Inr messages)
      show ?thesis
      proof (cases "first_message messages")
        case None
        then have "poll_loop env rs T st (sleep 100 w1) = (Inr None, w')"
          using "1.prems" True x Inr by (simp add: poll_loop.simps)
        then show ?thesis
          using "1.IH"[OF True x[symmetric] Inr None] by simp
      next
        case (Some m)
        then show ?thesis
          using "1.prems" True x Inr
          by (cases m) (simp add: poll_loop.simps split: prod.splits option.splits sum.splits)
      qed
    qed
  qed
qed



lemma poll_loop_reply:
  "poll_loop env rs T st w = (Inr (Some v), w') \<Longrightarrow>
   \<exists>evs msgs m. trace w' = trace w @ evs @ [XRead rs (Inr msgs), Delete rs None]
      \<and> first_message msgs = Some m \<and> json_loads env (data_field (snd m)) = Inr v"
proof (induction env rs T st w rule: poll_loop.induct)
  case (1 env rs T st w)
  show ?case
  proof (cases "before_deadline env T st w")
    case False
    then show ?thesis using "1.prems" by (simp add: poll_loop.simps)
  next
    case True
    obtain r w1 where x: "xread env rs w = (r, w1)" by (cases "xread env rs w")
    then have t1: "trace w1 = trace w @ [XRead rs r]"
      by (auto simp: xread_def awaited_def Let_def)
    show ?thesis
    proof (cases r)
      case (Inl e)
      then show ?thesis using "1.prems" True x by (simp add: poll_loop.simps)
    next
      case (Inr messages)
      show ?thesis
      proof (cases "first_message messages")
        case None
        then have "poll_loop env rs T st (sleep 100 w1) = (Inr (Some v), w')"
          using "1.prems" True x Inr by (simp add: poll_loop.simps)
        then obtain evs msgs m where
            "trace w' = trace (sleep 100 w1) @ evs @ [XRead rs (Inr msgs), Delete rs None]"
            "first_message msgs = Some m" "json_loads env (data_field (snd m)) = Inr v"
          using "1.IH"[OF True x[symmetric] Inr None] by blast
        then have "trace w' = trace w @ (XRead rs r # Sleep 100 # evs) @ [XRead rs (Inr msgs), Delete rs None]
            \<and> first_message msgs = Some m \<and> json_loads env (data_field (snd m)) = Inr v"
          using t1 by (simp add: sleep_def)
        then show ?thesis by blast
      next
        case (Some m)
        obtain d w2 where dk: "delete_key env rs w1 = (d, w2)" by (cases "delete_key env rs w1")
        then have t2: "trace w2 = trace w1 @ [Delete rs d]"
          by (auto simp: delete_key_def awaited_def Let_def)
        have "d = None \<and> w' = w2 \<and> json_loads env (data_field (snd m)) = Inr v"
          using "1.prems" True x Inr Some dk
          by (cases m) (auto simp: poll_loop.simps split: option.splits sum.splits)
        then have "trace w' = trace w @ [] @ [XRead rs (Inr messages), Delete rs None]
            \<and> first_message messages = Some m \<and> json_loads env (data_field (snd m)) = Inr v"
          using t1 t2 Inr Some by simp
        then show ?thesis by blast
      qed
    qed
  qed
qed

lemma poll_loop_trace: "\<exists>evs. trace (snd (poll_loop env rs T st w)) = trace w @ evs"
proof (induction env rs T st w rule: poll_loop.induct)
  case (1 env rs T st w)
  show ?case
  proof (cases "before_deadline env T st w")
    case False
    then show ?thesis by (simp add: poll_loop.simps)
  next
    case True
    obtain r w1 where x: "xread env rs w = (r, w1)" by (cases "xread env rs w")
    then have t1: "trace w1 = trace w @ [XRead rs r]"
      by (auto simp: xread_def awaited_def Let_def)
    show ?thesis
    proof (cases r)
      case (Inl e)
      then show ?thesis using True x t1 by (simp add: poll_loop.simps)
    next
      case (Inr messages)
      show ?thesis
      proof (cases "first_message messages")
        case None
        then have "poll_loop env rs T st w = poll_loop env rs T st (sleep 100 w1)"
          using True x Inr by (simp add: poll_loop.simps)
        moreover obtain evs where
            "trace (snd (poll_loop env rs T st (sleep 100 w1))) = trace (sleep 100 w1) @ evs"
          using "1.IH"[OF True x[symmetric] Inr None] by blast
        ultimately have "trace (snd (poll_loop env rs T st w)) = trace w @ (XRead rs r # Sleep 100 # evs)"
          using t1 by (simp add: sleep_def)
        then show ?thesis by blast
      next
        case (Some m)
        obtain d w2 where dk: "delete_key env rs w1 = (d, w2)" by (cases "delete_key env rs w1")
        then have t2: "trace w2 = trace w1 @ [Delete rs d]"
          by (auto simp: delete_key_def awaited_def Let_def)
        have "snd (poll_loop env rs T st w) = w2"
          using True x Inr Some dk
          by (cases m) (auto simp: poll_loop.simps split: option.splits sum.splits)
        then have "trace (snd (poll_loop env rs T st w)) = trace w @ [XRead rs r, Delete rs d]"
          using t1 t2 by simp
        then show ?thesis by blast
      qed
    qed
  qed
qed

lemma publish_trace: "\<exists>evs. trace (snd (publish b env et p c w)) = trace w @ evs"
  by (auto simp: publish_def publish_try_def choose_event_id_def call_defs
      split: option.splits sum.splits)

lemma request_try_trace:
  "\<exists>evs. trace (snd (request_try b env et p T cid rs w)) = trace w @ evs"
proof -
  let ?pl = "AList.update ''response_stream'' (JStr rs) p"
  obtain r1 w1 where pb: "publish b env et ?pl (Some cid) w = (r1, w1)"
    by (cases "publish b env et ?pl (Some cid) w")
  obtain evs1 where e1: "trace w1 = trace w @ evs1"
    using publish_trace[of b env et ?pl "Some cid" w] pb by auto
  show ?thesis
  proof (cases r1)
    case (Inl e)
    then show ?thesis using pb e1 by (simp add: request_try_def)
  next
    case (Inr eid)
    obtain r2 w2 where pl: "poll_loop env rs T (now w1) w1 = (r2, w2)"
      by (cases "poll_loop env rs T (now w1) w1")
    obtain evs2 where e2: "trace w2 = trace w1 @ evs2"
      using poll_loop_trace[of env rs T "now w1" w1] pl by auto
    show ?thesis
      using pb Inr pl e1 e2
      by (auto simp: request_try_def logger_def emit_def split: sum.splits option.splits)
  qed
qed

lemma request_finally_events:
  "\<exists>res. trace (snd (request_finally env rs ret w)) = trace w @ [Delete rs res]
     \<and> fst (request_finally env rs ret w) = (case res of None \<Rightarrow> Inr ret | Some e \<Rightarrow> Inl e)
     \<and> res = on_delete env (trace w) rs"
  by (auto simp: request_finally_def delete_key_def awaited_def Let_def split: option.splits)



lemma request_unfold:
  assumes "uuid4 env w = (cid, w1)" and "rs = response_stream_name b cid"
      and "request_try b env et p T cid rs w1 = (r, w2)"
  shows "request b env et p T w =
           (case r of
              Inl e \<Rightarrow> request_finally env rs JNull (logger ERROR (RequestFailed et e) w2)
            | Inr v \<Rightarrow> request_finally env rs v w2)"
  using assms by (simp add: request_def Let_def split: sum.splits)

lemma uuid4_trace: "uuid4 env w = (cid, w1) \<Longrightarrow> trace w1 = trace w"
  by (auto simp: uuid4_def)




text \<open>
  C1 (amended). \<^verbatim>\<open>request\<close> returns \<^verbatim>\<open>None\<close> both when an exception leaves
  its \<^verbatim>\<open>try\<close> block and when the deadline passes with no reply, provided its
  cleanup delete then succeeds: the caller sees the same value, and the exception is
  logged, not raised. The two cases differ only in the log line written before the
  cleanup, an error "Request failed" with the exception against a warning "Request
  timeout". An exception leaves the \<^verbatim>\<open>try\<close> block when publish raises it, and when
  in some round of the loop the read raises it, the delete after a read that brought a
  message raises it, or decoding that message raises it.
\<close>

theorem request_none_on_failure_and_on_timeout:
  assumes "uuid4 env w = (cid, w1)" and "rs = response_stream_name b cid"
  shows "(request_try b env et p T cid rs w1 = (Inl e, w2)
            \<and> on_delete env (trace w2 @ [Log ERROR (RequestFailed et e)]) rs = None \<longrightarrow>
            fst (request b env et p T w) = Inr JNull
            \<and> trace (snd (request b env et p T w)) =
                trace w2 @ [Log ERROR (RequestFailed et e), Delete rs None])
       \<and> (publish b env et (AList.update ''response_stream'' (JStr rs) p) (Some cid) w1 = (Inr eid, wp)
            \<and> poll_loop env rs T (now wp) wp = (Inr None, wq)
            \<and> on_delete env (trace wq @ [Log WARNING (RequestTimeout et)]) rs = None \<longrightarrow>
            fst (request b env et p T w) = Inr JNull
            \<and> trace (snd (request b env et p T w)) =
                trace wq @ [Log WARNING (RequestTimeout et), Delete rs None])
       \<and> (publish b env et (AList.update ''response_stream'' (JStr rs) p) (Some cid) w1 = (Inl e, w2) \<longrightarrow>
            request_try b env et p T cid rs w1 = (Inl e, w2))
       \<and> (publish b env et (AList.update ''response_stream'' (JStr rs) p) (Some cid) w1 = (Inr eid, wp)
            \<and> poll_loop env rs T (now wp) wp = (Inl e, w2) \<longrightarrow>
            request_try b env et p T cid rs w1 = (Inl e, w2))
       \<and> (before_deadline env T st wl \<and> xread env rs wl = (Inl e, wl1) \<longrightarrow>
            poll_loop env rs T st wl = (Inl e, wl1))
       \<and> (before_deadline env T st wl \<and> xread env rs wl = (Inr msgs, wl1)
            \<and> first_message msgs = Some m \<and> delete_key env rs wl1 = (Some e, wl2) \<longrightarrow>
            poll_loop env rs T st wl = (Inl e, wl2))
       \<and> (before_deadline env T st wl \<and> xread env rs wl = (Inr msgs, wl1)
            \<and> first_message msgs = Some m \<and> delete_key env rs wl1 = (None, wl2)
            \<and> json_loads env (data_field (snd m)) = Inl e \<longrightarrow>
            poll_loop env rs T st wl = (Inl e, wl2))"
proof -
  have fin: "\<And>ret w'. on_delete env (trace w') rs = None \<Longrightarrow>
      request_finally env rs ret w' = (Inr ret, awaited env (Delete rs None) w')"
    by (simp add: request_finally_def delete_key_def Let_def)
  have 1: "request_try b env et p T cid rs w1 = (Inl e, w2)
            \<and> on_delete env (trace w2 @ [Log ERROR (RequestFailed et e)]) rs = None \<longrightarrow>
            fst (request b env et p T w) = Inr JNull
            \<and> trace (snd (request b env et p T w)) =
                trace w2 @ [Log ERROR (RequestFailed et e), Delete rs None]"
  proof
    assume a: "request_try b env et p T cid rs w1 = (Inl e, w2)
            \<and> on_delete env (trace w2 @ [Log ERROR (RequestFailed et e)]) rs = None"
    then have d: "on_delete env (trace (logger ERROR (RequestFailed et e) w2)) rs = None"
      by (simp add: logger_def emit_def)
    have rq: "request b env et p T w =
        request_finally env rs JNull (logger ERROR (RequestFailed et e) w2)"
      using request_unfold[OF assms(1,2), of et p T "Inl e" w2] a by simp
    show "fst (request b env et p T w) = Inr JNull
            \<and> trace (snd (request b env et p T w)) =
                trace w2 @ [Log ERROR (RequestFailed et e), Delete rs None]"
      unfolding rq fin[OF d] by (simp add: awaited_def logger_def emit_def)
  qed
  have 2: "publish b env et (AList.update ''response_stream'' (JStr rs) p) (Some cid) w1 = (Inr eid, wp)
            \<and> poll_loop env rs T (now wp) wp = (Inr None, wq)
            \<and> on_delete env (trace wq @ [Log WARNING (RequestTimeout et)]) rs = None \<longrightarrow>
            fst (request b env et p T w) = Inr JNull
            \<and> trace (snd (request b env et p T w)) =
                trace wq @ [Log WARNING (RequestTimeout et), Delete rs None]"
  proof
    assume a: "publish b env et (AList.update ''response_stream'' (JStr rs) p) (Some cid) w1 = (Inr eid, wp)
            \<and> poll_loop env rs T (now wp) wp = (Inr None, wq)
            \<and> on_delete env (trace wq @ [Log WARNING (RequestTimeout et)]) rs = None"
    then have d: "on_delete env (trace (logger WARNING (RequestTimeout et) wq)) rs = None"
      by (simp add: logger_def emit_def)
    have rt: "request_try b env et p T cid rs w1 =
        (Inr JNull, logger WARNING (RequestTimeout et) wq)"
      using a by (simp add: request_try_def)
    have rq: "request b env et p T w =
        request_finally env rs JNull (logger WARNING (RequestTimeout et) wq)"
      using request_unfold[OF assms(1,2) rt] by simp
    show "fst (request b env et p T w) = Inr JNull
            \<and> trace (snd (request b env et p T w)) =
                trace wq @ [Log WARNING (RequestTimeout et), Delete rs None]"
      unfolding rq fin[OF d] by (simp add: awaited_def logger_def emit_def)
  qed
  have 3: "publish b env et (AList.update ''response_stream'' (JStr rs) p) (Some cid) w1 = (Inl e, w2) \<longrightarrow>
            request_try b env et p T cid rs w1 = (Inl e, w2)"
    by (simp add: request_try_def)
  have 4: "publish b env et (AList.update ''response_stream'' (JStr rs) p) (Some cid) w1 = (Inr eid, wp)
            \<and> poll_loop env rs T (now wp) wp = (Inl e, w2) \<longrightarrow>
            request_try b env et p T cid rs w1 = (Inl e, w2)"
    by (simp add: request_try_def)
  have 5: "before_deadline env T st wl \<and> xread env rs wl = (Inl e, wl1) \<longrightarrow>
            poll_loop env rs T st wl = (Inl e, wl1)"
    by (simp add: poll_loop.simps)
  have 6: "before_deadline env T st wl \<and> xread env rs wl = (Inr msgs, wl1)
            \<and> first_message msgs = Some m \<and> delete_key env rs wl1 = (Some e, wl2) \<longrightarrow>
            poll_loop env rs T st wl = (Inl e, wl2)"
    by (cases m) (simp add: poll_loop.simps)
  have 7: "before_deadline env T st wl \<and> xread env rs wl = (Inr msgs, wl1)
            \<and> first_message msgs = Some m \<and> delete_key env rs wl1 = (None, wl2)
            \<and> json_loads env (data_field (snd m)) = Inl e \<longrightarrow>
            poll_loop env rs T st wl = (Inl e, wl2)"
    by (cases m) (simp add: poll_loop.simps)
  show ?thesis using 1 2 3 4 5 6 7 by blast
qed

text \<open>
  C5. Whatever happens, the last call of \<^verbatim>\<open>request\<close> is the delete of its response
  stream, and \<^verbatim>\<open>request\<close> returns (rather than raises) exactly when that delete
  succeeded. On the success path the stream is deleted right after the read that
  brought the first message (and once more on leaving); on the timeout path it is deleted
  after the deadline has passed and the warning is logged.
\<close>

theorem response_stream_deleted_on_every_path:
  assumes "uuid4 env w = (cid, w1)" and "rs = response_stream_name b cid"
  shows "(\<exists>evs res. new_events w (snd (request b env et p T w)) = evs @ [Delete rs res]
            \<and> (res = None) = (\<exists>v. fst (request b env et p T w) = Inr v))
       \<and> (publish b env et (AList.update ''response_stream'' (JStr rs) p) (Some cid) w1 = (Inr eid, w2)
            \<and> poll_loop env rs T (now w2) w2 = (Inr (Some v), w3) \<longrightarrow>
            (\<exists>evs msgs m res. new_events w (snd (request b env et p T w)) =
                 evs @ [XRead rs (Inr msgs), Delete rs None, Delete rs res]
               \<and> first_message msgs = Some m))
       \<and> (publish b env et (AList.update ''response_stream'' (JStr rs) p) (Some cid) w1 = (Inr eid, w2)
            \<and> poll_loop env rs T (now w2) w2 = (Inr None, w3) \<longrightarrow>
            (\<exists>evs res. new_events w (snd (request b env et p T w)) =
                 evs @ [Log WARNING (RequestTimeout et), Delete rs res])
            \<and> 1000 * T \<le> now w3 - now w2)"
proof -
  let ?pl = "AList.update ''response_stream'' (JStr rs) p"
  have tw1: "trace w1 = trace w" using assms(1) by (rule uuid4_trace)
  obtain r wt where rt: "request_try b env et p T cid rs w1 = (r, wt)"
    by (cases "request_try b env et p T cid rs w1")
  obtain evt where evt: "trace wt = trace w @ evt"
    using request_try_trace[of b env et p T cid rs w1] rt tw1 by auto
  have 1: "\<exists>evs res. new_events w (snd (request b env et p T w)) = evs @ [Delete rs res]
            \<and> (res = None) = (\<exists>v. fst (request b env et p T w) = Inr v)"
  proof (cases r)
    case (Inl e)
    let ?w = "logger ERROR (RequestFailed et e) wt"
    obtain res where res: "trace (snd (request_finally env rs JNull ?w)) = trace ?w @ [Delete rs res]"
        "fst (request_finally env rs JNull ?w) = (case res of None \<Rightarrow> Inr JNull | Some e \<Rightarrow> Inl e)"
      using request_finally_events[of env rs JNull ?w] by blast
    have rq: "request b env et p T w = request_finally env rs JNull ?w"
      using request_unfold[OF assms(1,2) rt] Inl by simp
    have "trace (snd (request b env et p T w)) =
        trace w @ (evt @ [Log ERROR (RequestFailed et e)]) @ [Delete rs res]"
      unfolding rq res(1) using evt by (simp add: logger_def emit_def)
    then have "new_events w (snd (request b env et p T w)) =
        (evt @ [Log ERROR (RequestFailed et e)]) @ [Delete rs res]"
      by (rule new_events_append)
    moreover have "(res = None) = (\<exists>v. fst (request b env et p T w) = Inr v)"
      unfolding rq res(2) by (cases res) auto
    ultimately show ?thesis by blast
  next
    case (Inr v')
    obtain res where res: "trace (snd (request_finally env rs v' wt)) = trace wt @ [Delete rs res]"
        "fst (request_finally env rs v' wt) = (case res of None \<Rightarrow> Inr v' | Some e \<Rightarrow> Inl e)"
      using request_finally_events[of env rs v' wt] by blast
    have rq: "request b env et p T w = request_finally env rs v' wt"
      using request_unfold[OF assms(1,2) rt] Inr by simp
    have "trace (snd (request b env et p T w)) = trace w @ evt @ [Delete rs res]"
      unfolding rq res(1) using evt by simp
    then have "new_events w (snd (request b env et p T w)) = evt @ [Delete rs res]"
      by (rule new_events_append)
    moreover have "(res = None) = (\<exists>v. fst (request b env et p T w) = Inr v)"
      unfolding rq res(2) by (cases res) auto
    ultimately show ?thesis by blast
  qed
  have 2: "publish b env et ?pl (Some cid) w1 = (Inr eid, w2)
            \<and> poll_loop env rs T (now w2) w2 = (Inr (Some v), w3) \<longrightarrow>
            (\<exists>evs msgs m res. new_events w (snd (request b env et p T w)) =
                 evs @ [XRead rs (Inr msgs), Delete rs None, Delete rs res]
               \<and> first_message msgs = Some m)"
  proof
    assume a: "publish b env et ?pl (Some cid) w1 = (Inr eid, w2)
            \<and> poll_loop env rs T (now w2) w2 = (Inr (Some v), w3)"
    then have rt': "request_try b env et p T cid rs w1 = (Inr v, w3)"
      by (simp add: request_try_def)
    obtain ev2 where ev2: "trace w2 = trace w @ ev2"
      using publish_trace[of b env et ?pl "Some cid" w1] a tw1 by auto
    obtain evs msgs m where lp:
        "trace w3 = trace w2 @ evs @ [XRead rs (Inr msgs), Delete rs None]"
        "first_message msgs = Some m"
      using poll_loop_reply[of env rs T "now w2" w2 v w3] a by blast
    obtain res where res: "trace (snd (request_finally env rs v w3)) = trace w3 @ [Delete rs res]"
      using request_finally_events[of env rs v w3] by blast
    have rq: "request b env et p T w = request_finally env rs v w3"
      using request_unfold[OF assms(1,2) rt'] by simp
    have "trace (snd (request b env et p T w)) =
        trace w @ (ev2 @ evs) @ [XRead rs (Inr msgs), Delete rs None, Delete rs res]"
      unfolding rq res lp(1) ev2 by simp
    then have "new_events w (snd (request b env et p T w)) =
        (ev2 @ evs) @ [XRead rs (Inr msgs), Delete rs None, Delete rs res]"
      by (rule new_events_append)
    then show "\<exists>evs msgs m res. new_events w (snd (request b env et p T w)) =
                 evs @ [XRead rs (Inr msgs), Delete rs None, Delete rs res]
               \<and> first_message msgs = Some m"
      using lp(2) by blast
  qed
  have 3: "publish b env et ?pl (Some cid) w1 = (Inr eid, w2)
            \<and> poll_loop env rs T (now w2) w2 = (Inr None, w3) \<longrightarrow>
            (\<exists>evs res. new_events w (snd (request b env et p T w)) =
                 evs @ [Log WARNING (RequestTimeout et), Delete rs res])
            \<and> 1000 * T \<le> now w3 - now w2"
  proof
    assume a: "publish b env et ?pl (Some cid) w1 = (Inr eid, w2)
            \<and> poll_loop env rs T (now w2) w2 = (Inr None, w3)"
    let ?w = "logger WARNING (RequestTimeout et) w3"
    have rt': "request_try b env et p T cid rs w1 = (Inr JNull, ?w)"
      using a by (simp add: request_try_def)
    obtain ev2 where ev2: "trace w2 = trace w @ ev2"
      using publish_trace[of b env et ?pl "Some cid" w1] a tw1 by auto
    obtain evl where evl: "trace w3 = trace w2 @ evl"
      using poll_loop_trace[of env rs T "now w2" w2] a by auto
    have ev3: "trace w3 = trace w @ (ev2 @ evl)"
      using ev2 evl by simp
    obtain res where res: "trace (snd (request_finally env rs JNull ?w)) = trace ?w @ [Delete rs res]"
      using request_finally_events[of env rs JNull ?w] by blast
    have rq: "request b env et p T w = request_finally env rs JNull ?w"
      using request_unfold[OF assms(1,2) rt'] by simp
    have "trace (snd (request b env et p T w)) =
        trace w @ (ev2 @ evl) @ [Log WARNING (RequestTimeout et), Delete rs res]"
      unfolding rq res using ev3 by (simp add: logger_def emit_def)
    then have "new_events w (snd (request b env et p T w)) =
        (ev2 @ evl) @ [Log WARNING (RequestTimeout et), Delete rs res]"
      by (rule new_events_append)
    moreover have "1000 * T \<le> now w3 - now w2"
      using poll_loop_lower[of env rs T "now w2" w2 w3] a by simp
    ultimately show "(\<exists>evs res. new_events w (snd (request b env et p T w)) =
                 evs @ [Log WARNING (RequestTimeout et), Delete rs res])
            \<and> 1000 * T \<le> now w3 - now w2"
      by blast
  qed
  show ?thesis using 1 2 3 by blast
qed



subsection \<open>Example runs of request\<close>

text \<open>
  Runs of \<^verbatim>\<open>request("ping", {}, timeout=1)\<close> on the default bus, computed: with no
  reply, with a failed publish, with a reply, with a reply and a failing first delete,
  and with no reply on a slow store.
\<close>

lemmas request_defs =
  request_def request_try_def request_finally_def response_stream_name_def publish_def
  publish_try_def choose_event_id_def make_stream_def poll_loop.simps before_deadline_def

lemmas example_defs =
  quiet_def toy_dumps_def toy_loads_def data_field_def event_bus_def world0_def world_at_def
  ping_published_def ping_refused_def reply_42_def

lemma response_stream_u: "''agent:stream:response:u'' = response_stream_name event_bus ''u''"
  by (simp add: response_stream_name_def event_bus_def)

lemma uuid4_quiet: "uuid4 quiet world0 = (''u'', world_at [] 0)"
  by (simp add: uuid4_def example_defs)

lemma uuid4_xadd_down: "uuid4 xadd_down world0 = (''u'', world_at [] 0)"
  by (simp add: uuid4_def xadd_down_def example_defs)

lemma uuid4_replying: "uuid4 replying world0 = (''u'', world_at [] 0)"
  by (simp add: uuid4_def replying_def example_defs)

lemma uuid4_delete_fails_once: "uuid4 delete_fails_once world0 = (''u'', world_at [] 0)"
  by (simp add: uuid4_def delete_fails_once_def replying_def example_defs)


lemma publish_quiet:
  "publish event_bus quiet ''ping''
     (AList.update ''response_stream'' (JStr ''agent:stream:response:u'') [])
     (Some ''u'') (world_at [] 0) =
   (Inr ''u'', world_at ping_published 400)"
  by (simp add: request_defs example_defs call_defs)

lemma publish_replying:
  "publish event_bus replying ''ping''
     (AList.update ''response_stream'' (JStr ''agent:stream:response:u'') [])
     (Some ''u'') (world_at [] 0) =
   (Inr ''u'', world_at ping_published 400)"
  by (simp add: request_defs replying_def example_defs call_defs)

lemma publish_delete_fails_once:
  "publish event_bus delete_fails_once ''ping''
     (AList.update ''response_stream'' (JStr ''agent:stream:response:u'') [])
     (Some ''u'') (world_at [] 0) =
   (Inr ''u'', world_at ping_published 400)"
  by (simp add: request_defs delete_fails_once_def replying_def example_defs call_defs)


lemma request_try_xadd_down:
  "request_try event_bus xadd_down ''ping'' [] 1 ''u'' ''agent:stream:response:u''
     (world_at [] 0) =
   (Inl ConnectionError, world_at ping_refused 400)"
  by (simp add: request_defs xadd_down_def example_defs call_defs)

lemma poll_quiet:
  "poll_loop quiet ''agent:stream:response:u'' 1
     (now (world_at ping_published 400)) (world_at ping_published 400) =
   (Inr None,
    world_at (ping_published @
      [XRead ''agent:stream:response:u'' (Inr []), Sleep 100,
       XRead ''agent:stream:response:u'' (Inr []), Sleep 100]) 1400)"
  by (simp add: request_defs example_defs call_defs)

lemma poll_replying:
  "poll_loop replying ''agent:stream:response:u'' 1
     (now (world_at ping_published 400)) (world_at ping_published 400) =
   (Inr (Some (JInt 42)),
    world_at (ping_published @
      [XRead ''agent:stream:response:u'' (Inr reply_42),
       Delete ''agent:stream:response:u'' None]) 1200)"
  by (simp add: request_defs replying_def example_defs call_defs)

lemma poll_slow_publish:
  "poll_loop slow_publish ''agent:stream:response:u'' 1
     (now (world_at ping_published 3000)) (world_at ping_published 3000) =
   (Inr None,
    world_at (ping_published @
      [XRead ''agent:stream:response:u'' (Inr []), Sleep 100]) 4100)"
  by (simp add: request_defs slow_publish_def example_defs call_defs)

lemma request_quiet:
  "request event_bus quiet ''ping'' [] 1 world0 =
   (Inr JNull,
    world_at (ping_published @
      [XRead ''agent:stream:response:u'' (Inr []), Sleep 100,
       XRead ''agent:stream:response:u'' (Inr []), Sleep 100,
       Log WARNING (RequestTimeout ''ping''),
       Delete ''agent:stream:response:u'' None]) 1800)"
  by (simp add: request_defs example_defs call_defs uuid4_def)

lemma request_xadd_down:
  "request event_bus xadd_down ''ping'' [] 1 world0 =
   (Inr JNull,
    world_at (ping_refused @
      [Log ERROR (RequestFailed ''ping'' ConnectionError),
       Delete ''agent:stream:response:u'' None]) 800)"
  by (simp add: request_defs xadd_down_def example_defs call_defs uuid4_def)




lemma read_delete_fails_once:
  "xread delete_fails_once ''agent:stream:response:u'' (world_at ping_published 400) =
   (Inr reply_42,
    world_at (ping_published @ [XRead ''agent:stream:response:u'' (Inr reply_42)]) 800)"
  by (simp add: xread_def awaited_def Let_def delete_fails_once_def replying_def example_defs)

lemma delete_delete_fails_once:
  "delete_key delete_fails_once ''agent:stream:response:u''
     (world_at (ping_published @ [XRead ''agent:stream:response:u'' (Inr reply_42)]) 800) =
   (Some ConnectionError,
    world_at (ping_published @
      [XRead ''agent:stream:response:u'' (Inr reply_42),
       Delete ''agent:stream:response:u'' (Some ConnectionError)]) 1200)"
  by (simp add: delete_key_def awaited_def Let_def delete_fails_once_def replying_def
      example_defs)

lemma cleanup_delete_fails_once:
  "on_delete delete_fails_once
     (trace (world_at (ping_published @
        [XRead ''agent:stream:response:u'' (Inr reply_42),
         Delete ''agent:stream:response:u'' (Some ConnectionError)]) 1200)
      @ [Log ERROR (RequestFailed ''ping'' ConnectionError)])
     ''agent:stream:response:u'' = None"
  by (simp add: delete_fails_once_def replying_def example_defs)

lemma deadline_delete_fails_once:
  "before_deadline delete_fails_once 1 (now (world_at ping_published 400))
     (world_at ping_published 400)"
  by (simp add: before_deadline_def world_at_def)

text \<open>
  C1 as stated fails: a request that timed out and a request whose publish raised a
  connection error return the same value, \<^verbatim>\<open>None\<close>, and the error is not raised.
\<close>

theorem request_timeout_and_failure_same_value:
  "fst (request event_bus quiet ''ping'' [] 1 world0) =
     fst (request event_bus xadd_down ''ping'' [] 1 world0)
   \<and> fst (request event_bus xadd_down ''ping'' [] 1 world0) = Inr JNull
   \<and> Log WARNING (RequestTimeout ''ping'')
       \<in> set (trace (snd (request event_bus quiet ''ping'' [] 1 world0)))
   \<and> Log ERROR (RequestFailed ''ping'' ConnectionError)
       \<in> set (trace (snd (request event_bus xadd_down ''ping'' [] 1 world0)))"
  by (simp add: request_quiet request_xadd_down world_at_def)

text \<open>
  The theorem on three runs: no reply (timeout), a failed publish, and a reply whose
  delete after the read fails while the cleanup delete succeeds. Each returns
  \<^verbatim>\<open>None\<close>.
\<close>

theorem request_none_on_failure_and_on_timeout_witness:
  "fst (request event_bus quiet ''ping'' [] 1 world0) = Inr JNull
   \<and> fst (request event_bus xadd_down ''ping'' [] 1 world0) = Inr JNull
   \<and> poll_loop delete_fails_once ''agent:stream:response:u'' 1
        (now (world_at ping_published 400)) (world_at ping_published 400) =
      (Inl ConnectionError,
       world_at (ping_published @
         [XRead ''agent:stream:response:u'' (Inr reply_42),
          Delete ''agent:stream:response:u'' (Some ConnectionError)]) 1200)
   \<and> fst (request event_bus delete_fails_once ''ping'' [] 1 world0) = Inr JNull"
proof -
  note q = request_none_on_failure_and_on_timeout[OF uuid4_quiet response_stream_u,
      where et = "''ping''" and p = "[]" and T = 1 and eid = "''u''"
        and wp = "world_at ping_published 400"
        and wq = "world_at (ping_published @
            [XRead ''agent:stream:response:u'' (Inr []), Sleep 100,
             XRead ''agent:stream:response:u'' (Inr []), Sleep 100]) 1400"]
  have cq: "on_delete quiet
      (trace (world_at (ping_published @
            [XRead ''agent:stream:response:u'' (Inr []), Sleep 100,
             XRead ''agent:stream:response:u'' (Inr []), Sleep 100]) 1400)
       @ [Log WARNING (RequestTimeout ''ping'')]) ''agent:stream:response:u'' = None"
    by (simp add: quiet_def)
  have 1: "fst (request event_bus quiet ''ping'' [] 1 world0) = Inr JNull"
    using q publish_quiet poll_quiet cq by blast
  note x = request_none_on_failure_and_on_timeout[OF uuid4_xadd_down response_stream_u,
      where et = "''ping''" and p = "[]" and T = 1 and e = ConnectionError
        and ?w2.0 = "world_at ping_refused 400"]
  have cx: "on_delete xadd_down
      (trace (world_at ping_refused 400) @ [Log ERROR (RequestFailed ''ping'' ConnectionError)])
      ''agent:stream:response:u'' = None"
    by (simp add: xadd_down_def quiet_def)
  have 2: "fst (request event_bus xadd_down ''ping'' [] 1 world0) = Inr JNull"
    using x request_try_xadd_down cx by blast
  note d = request_none_on_failure_and_on_timeout[OF uuid4_delete_fails_once response_stream_u,
      where et = "''ping''" and p = "[]" and T = 1 and e = ConnectionError
        and eid = "''u''" and wp = "world_at ping_published 400"
        and st = "now (world_at ping_published 400)" and wl = "world_at ping_published 400"
        and msgs = reply_42 and m = "(''5-0'', [(''data'', ''42'')])"
        and ?wl1.0 = "world_at (ping_published @
            [XRead ''agent:stream:response:u'' (Inr reply_42)]) 800"
        and ?wl2.0 = "world_at (ping_published @
            [XRead ''agent:stream:response:u'' (Inr reply_42),
             Delete ''agent:stream:response:u'' (Some ConnectionError)]) 1200"
        and ?w2.0 = "world_at (ping_published @
            [XRead ''agent:stream:response:u'' (Inr reply_42),
             Delete ''agent:stream:response:u'' (Some ConnectionError)]) 1200"]
  have fm: "first_message reply_42 = Some (''5-0'', [(''data'', ''42'')])"
    by (simp add: reply_42_def)
  have 3: "poll_loop delete_fails_once ''agent:stream:response:u'' 1
        (now (world_at ping_published 400)) (world_at ping_published 400) =
      (Inl ConnectionError,
       world_at (ping_published @
         [XRead ''agent:stream:response:u'' (Inr reply_42),
          Delete ''agent:stream:response:u'' (Some ConnectionError)]) 1200)"
    using d deadline_delete_fails_once read_delete_fails_once fm delete_delete_fails_once
    by blast
  have "request_try event_bus delete_fails_once ''ping'' [] 1 ''u''
        ''agent:stream:response:u'' (world_at [] 0) =
      (Inl ConnectionError,
       world_at (ping_published @
         [XRead ''agent:stream:response:u'' (Inr reply_42),
          Delete ''agent:stream:response:u'' (Some ConnectionError)]) 1200)"
    using d publish_delete_fails_once 3 by blast
  then have 4: "fst (request event_bus delete_fails_once ''ping'' [] 1 world0) = Inr JNull"
    using d cleanup_delete_fails_once by blast
  show ?thesis using 1 2 3 4 by blast
qed

text \<open>The theorem on the run with a reply (success path) and on the run with none (timeout path).\<close>

theorem response_stream_deleted_on_every_path_witness:
  "(\<exists>evs res. new_events world0 (snd (request event_bus replying ''ping'' [] 1 world0)) =
        evs @ [Delete ''agent:stream:response:u'' res]
      \<and> (res = None) = (\<exists>v. fst (request event_bus replying ''ping'' [] 1 world0) = Inr v))
   \<and> (\<exists>evs msgs m res.
        new_events world0 (snd (request event_bus replying ''ping'' [] 1 world0)) =
          evs @ [XRead ''agent:stream:response:u'' (Inr msgs),
                 Delete ''agent:stream:response:u'' None,
                 Delete ''agent:stream:response:u'' res]
      \<and> first_message msgs = Some m)
   \<and> (\<exists>evs res. new_events world0 (snd (request event_bus quiet ''ping'' [] 1 world0)) =
        evs @ [Log WARNING (RequestTimeout ''ping''), Delete ''agent:stream:response:u'' res])"
proof -
  note r = response_stream_deleted_on_every_path[OF uuid4_replying response_stream_u,
        where et = "''ping''" and p = "[]" and T = 1 and eid = "''u''" and v = "JInt 42"
        and ?w2.0 = "world_at ping_published 400"
        and ?w3.0 = "world_at (ping_published @
            [XRead ''agent:stream:response:u'' (Inr reply_42),
             Delete ''agent:stream:response:u'' None]) 1200"]
  note q = response_stream_deleted_on_every_path[OF uuid4_quiet response_stream_u,
        where et = "''ping''" and p = "[]" and T = 1 and eid = "''u''"
        and ?w2.0 = "world_at ping_published 400"
        and ?w3.0 = "world_at (ping_published @
            [XRead ''agent:stream:response:u'' (Inr []), Sleep 100,
             XRead ''agent:stream:response:u'' (Inr []), Sleep 100]) 1400"]
  have 1: "\<exists>evs res. new_events world0 (snd (request event_bus replying ''ping'' [] 1 world0)) =
        evs @ [Delete ''agent:stream:response:u'' res]
      \<and> (res = None) = (\<exists>v. fst (request event_bus replying ''ping'' [] 1 world0) = Inr v)"
    using r by blast
  have 2: "\<exists>evs msgs m res.
        new_events world0 (snd (request event_bus replying ''ping'' [] 1 world0)) =
          evs @ [XRead ''agent:stream:response:u'' (Inr msgs),
                 Delete ''agent:stream:response:u'' None,
                 Delete ''agent:stream:response:u'' res]
      \<and> first_message msgs = Some m"
    using r publish_replying poll_replying by blast
  have 3: "\<exists>evs res. new_events world0 (snd (request event_bus quiet ''ping'' [] 1 world0)) =
        evs @ [Log WARNING (RequestTimeout ''ping''), Delete ''agent:stream:response:u'' res]"
    using q publish_quiet poll_quiet by blast
  show ?thesis using 1 2 3 by blast
qed



end
